theory Spec2Isabelle
  imports Main
begin

section \<open>Strings of the content script\<close>

text \<open>
  A JavaScript string is a sequence of UTF-16 code units and \<open>length\<close> counts units.
  A unit is modelled by its number, so that the truncation mark U+2026, which the
  listing page puts into long venue names, is the unit 8230. \<open>lit\<close> turns an ASCII
  literal of the source into its units.
\<close>

type_synonym jchar = nat
type_synonym jstring = "nat list"

definition lit :: "string \<Rightarrow> jstring" where
  "lit s = map of_char s"

text \<open>White space and line terminators: what \<open>\s\<close> matches and \<open>trim\<close> removes.\<close>

definition isWhiteSpace :: "jchar \<Rightarrow> bool" where
  "isWhiteSpace c = (c = 32 \<or> (9 \<le> c \<and> c \<le> 13) \<or> c = 160 \<or> c = 5760 \<or>
     (8192 \<le> c \<and> c \<le> 8202) \<or> c = 8232 \<or> c = 8233 \<or> c = 8239 \<or> c = 8287 \<or>
     c = 12288 \<or> c = 65279)"

definition isDigit :: "jchar \<Rightarrow> bool" where
  "isDigit c = (48 \<le> c \<and> c \<le> 57)"

text \<open>The class \<open>\w\<close>, which decides the word boundary \<open>\b\<close>.\<close>

definition isWordChar :: "jchar \<Rightarrow> bool" where
  "isWordChar c = ((97 \<le> c \<and> c \<le> 122) \<or> (65 \<le> c \<and> c \<le> 90) \<or>
     (48 \<le> c \<and> c \<le> 57) \<or> c = 95)"

text \<open>The class of \<open>.\<close>: every unit but the four line terminators.\<close>

definition dot :: "jchar \<Rightarrow> bool" where
  "dot c = (\<not> (c = 10 \<or> c = 13 \<or> c = 8232 \<or> c = 8233))"

text \<open>The class \<open>[\d-]\<close> of the page-number pattern and the class \<open>[,.(]\<close> of the split.\<close>

definition digitOrDash :: "jchar \<Rightarrow> bool" where
  "digitOrDash c = (isDigit c \<or> c = 45)"

definition isSeparator :: "jchar \<Rightarrow> bool" where
  "isSeparator c = (c = 44 \<or> c = 46 \<or> c = 40)"

text \<open>
  Under the flag \<open>i\<close> a pattern unit and an input unit match when they have the same
  canonical form. Every letter in a pattern of this script is a lower-case ASCII
  letter, and no unit from 128 on has an ASCII canonical form, so matching under
  \<open>i\<close> is matching after the ASCII capitals of the input are folded to lower case.
\<close>

definition fold_case :: "jchar \<Rightarrow> jchar" where
  "fold_case c = (if 65 \<le> c \<and> c \<le> 90 then c + 32 else c)"

text \<open>
  \<open>toLowerCase\<close>, unit by unit. It is exact on the units below 256 and on the five
  units from 256 on whose lower case has a unit below 256 (U+0130, U+0178, U+1E9E,
  U+212A, U+212B). Any other unit is kept: its lower case consists of units from 256
  on that are neither white space nor line terminators, and the lower-cased text is
  only ever tested against patterns over ASCII literals, \<open>\s\<close>, \<open>\d\<close> and \<open>.\<close>,
  which cannot tell such units apart.
\<close>

definition lower_unit :: "jchar \<Rightarrow> jstring" where
  "lower_unit c =
     (if (65 \<le> c \<and> c \<le> 90) \<or> (192 \<le> c \<and> c \<le> 222 \<and> c \<noteq> 215) then [c + 32]
      else if c = 304 then [105, 775]
      else if c = 376 then [255]
      else if c = 7838 then [223]
      else if c = 8490 then [107]
      else if c = 8491 then [229]
      else [c])"

fun toLowerCase :: "jstring \<Rightarrow> jstring" where
  "toLowerCase [] = []"
| "toLowerCase (c # cs) = lower_unit c @ toLowerCase cs"

definition trim :: "jstring \<Rightarrow> jstring" where
  "trim s = rev (dropWhile isWhiteSpace (rev (dropWhile isWhiteSpace s)))"

text \<open>\<open>s.includes(w)\<close>: \<open>w\<close> occurs in \<open>s\<close>.\<close>

fun starts_with :: "jstring \<Rightarrow> jstring \<Rightarrow> bool" where
  "starts_with [] s = True"
| "starts_with (p # ps) [] = False"
| "starts_with (p # ps) (c # cs) = (if p = c then starts_with ps cs else False)"

fun includes_str :: "jstring \<Rightarrow> jstring \<Rightarrow> bool" where
  "includes_str w [] = (w = [])"
| "includes_str w (c # cs) = (if starts_with w (c # cs) then True else includes_str w cs)"

section \<open>Regular expressions\<close>

text \<open>
  The fragment of the regular expressions that the script uses: literals, classes,
  greedy and lazy repetition of a class, an optional group, sequence, alternative,
  the anchors \<open>^\<close> and \<open>$\<close> (the flag \<open>m\<close> is never set) and the word boundary.
\<close>

datatype regex =
    Lit jstring
  | Cls "jchar \<Rightarrow> bool"
  | Star "jchar \<Rightarrow> bool"
  | Lazy "jchar \<Rightarrow> bool"
  | Opt regex
  | Seq regex regex
  | Alt regex regex
  | Bol
  | Eol
  | WordB

text \<open>
  A matcher state is the unit before the current position (none at the start of the
  input) and the input that is left. \<open>rmatch r m\<close> lists the states in which a match
  of \<open>r\<close> from \<open>m\<close> can end, in the order in which a backtracking matcher tries them:
  a greedy repetition first takes as much as it can, a lazy one as little, an
  alternative its left branch. The head of the list is the match JavaScript reports.
\<close>

type_synonym mstate = "jchar option \<times> jstring"

fun lit_match :: "jstring \<Rightarrow> jchar option \<Rightarrow> jstring \<Rightarrow> mstate list" where
  "lit_match [] prev s = [(prev, s)]"
| "lit_match (p # ps) prev [] = []"
| "lit_match (p # ps) prev (c # cs) = (if p = c then lit_match ps (Some c) cs else [])"

fun star_greedy :: "(jchar \<Rightarrow> bool) \<Rightarrow> jchar option \<Rightarrow> jstring \<Rightarrow> mstate list" where
  "star_greedy p prev [] = [(prev, [])]"
| "star_greedy p prev (c # cs) =
     (if p c then star_greedy p (Some c) cs @ [(prev, c # cs)] else [(prev, c # cs)])"

fun star_lazy :: "(jchar \<Rightarrow> bool) \<Rightarrow> jchar option \<Rightarrow> jstring \<Rightarrow> mstate list" where
  "star_lazy p prev [] = [(prev, [])]"
| "star_lazy p prev (c # cs) =
     (prev, c # cs) # (if p c then star_lazy p (Some c) cs else [])"

definition word_before :: "jchar option \<Rightarrow> bool" where
  "word_before prev = (case prev of None \<Rightarrow> False | Some c \<Rightarrow> isWordChar c)"

definition word_after :: "jstring \<Rightarrow> bool" where
  "word_after s = (case s of [] \<Rightarrow> False | c # cs \<Rightarrow> isWordChar c)"

fun rmatch :: "regex \<Rightarrow> mstate \<Rightarrow> mstate list"
  and rmatches :: "regex \<Rightarrow> mstate list \<Rightarrow> mstate list" where
  "rmatch (Lit w) m = lit_match w (fst m) (snd m)"
| "rmatch (Cls p) m =
     (case snd m of [] \<Rightarrow> [] | c # cs \<Rightarrow> if p c then [(Some c, cs)] else [])"
| "rmatch (Star p) m = star_greedy p (fst m) (snd m)"
| "rmatch (Lazy p) m = star_lazy p (fst m) (snd m)"
| "rmatch (Opt r) m = rmatch r m @ [m]"
| "rmatch (Seq a b) m = rmatches b (rmatch a m)"
| "rmatch (Alt a b) m = rmatch a m @ rmatch b m"
| "rmatch Bol m = (if fst m = None then [m] else [])"
| "rmatch Eol m = (if snd m = [] then [m] else [])"
| "rmatch WordB m = (if word_before (fst m) \<noteq> word_after (snd m) then [m] else [])"
| "rmatches r [] = []"
| "rmatches r (m # ms) = rmatch r m @ rmatches r ms"

text \<open>
  \<open>exec\<close> looks for the leftmost position with a match and returns its index and the
  input left after the match.
\<close>

fun exec :: "regex \<Rightarrow> jchar option \<Rightarrow> jstring \<Rightarrow> (nat \<times> jstring) option" where
  "exec r prev [] =
     (case rmatch r (prev, []) of [] \<Rightarrow> None | m # ms \<Rightarrow> Some (0, snd m))"
| "exec r prev (c # cs) =
     (case rmatch r (prev, c # cs) of
        [] \<Rightarrow> (case exec r (Some c) cs of
                 None \<Rightarrow> None
               | Some (i, rest) \<Rightarrow> Some (Suc i, rest))
      | m # ms \<Rightarrow> Some (0, snd m))"

text \<open>\<open>/r/i.test(s)\<close>; every \<open>test\<close> of the script has the flag \<open>i\<close>.\<close>

definition test :: "regex \<Rightarrow> jstring \<Rightarrow> bool" where
  "test r s = (exec r None (map fold_case s) \<noteq> None)"

text \<open>
  \<open>s.replace(/r/, rep)\<close> and \<open>s.replace(/r/i, rep)\<close>: the first match is replaced; the
  replacement strings of the script are a blank and the empty string, which hold no
  \<open>$\<close> pattern.
\<close>

definition replace :: "regex \<Rightarrow> jstring \<Rightarrow> jstring \<Rightarrow> jstring" where
  "replace r rep s =
     (case exec r None s of None \<Rightarrow> s | Some (i, rest) \<Rightarrow> take i s @ rep @ rest)"

definition replace_i :: "regex \<Rightarrow> jstring \<Rightarrow> jstring \<Rightarrow> jstring" where
  "replace_i r rep s =
     (case exec r None (map fold_case s) of
        None \<Rightarrow> s
      | Some (i, rest) \<Rightarrow> take i s @ rep @ drop (length s - length rest) s)"

text \<open>\<open>s.replace(/\s+/g, " ")\<close>: every maximal run of white space becomes one blank.\<close>

fun collapse_spaces :: "jstring \<Rightarrow> jstring" where
  "collapse_spaces [] = []"
| "collapse_spaces [c] = (if isWhiteSpace c then [32] else [c])"
| "collapse_spaces (c # d # cs) =
     (if isWhiteSpace c
      then (if isWhiteSpace d then collapse_spaces (d # cs) else 32 # collapse_spaces (d # cs))
      else c # collapse_spaces (d # cs))"

text \<open>\<open>s.split(/[,.(]/)[0]\<close>: the text before the first separator.\<close>

definition split_first :: "jstring \<Rightarrow> jstring" where
  "split_first s = takeWhile (\<lambda>c. \<not> isSeparator c) s"

subsection \<open>Notation for the patterns\<close>

definition L :: "string \<Rightarrow> regex" where
  "L w = Lit (lit w)"

fun seqs :: "regex list \<Rightarrow> regex" where
  "seqs [] = Lit []"
| "seqs [r] = r"
| "seqs (r # rs) = Seq r (seqs rs)"

fun alts :: "regex list \<Rightarrow> regex" where
  "alts [] = Lit []"
| "alts [r] = r"
| "alts (r # rs) = Alt r (alts rs)"

text \<open>\<open>gaps [a, b, c]\<close> is \<open>a.*?b.*?c\<close> and \<open>words [a, b, c]\<close> is \<open>a|b|c\<close>.\<close>

fun gaps :: "string list \<Rightarrow> regex" where
  "gaps [] = Lit []"
| "gaps [w] = L w"
| "gaps (w # ws) = Seq (L w) (Seq (Lazy dot) (gaps ws))"

definition words :: "string list \<Rightarrow> regex" where
  "words ws = alts (map L ws)"

definition many1 :: "(jchar \<Rightarrow> bool) \<Rightarrow> regex" where
  "many1 p = Seq (Cls p) (Star p)"

definition year :: regex where
  "year = seqs [Cls isDigit, Cls isDigit, Cls isDigit, Cls isDigit]"

section \<open>normalizeVenue\<close>

subsection \<open>The patterns of the clean-up\<close>

definition re_ellipsis :: regex where
  "re_ellipsis = Seq (Lit [8230]) Eol"

definition re_year_comma :: regex where
  "re_year_comma = seqs [Star isWhiteSpace, L '','', Star isWhiteSpace, year,
     Alt (Cls isWhiteSpace) Eol]"

definition re_year_end :: regex where
  "re_year_end = seqs [Star isWhiteSpace, year, Star isWhiteSpace, Eol]"

definition re_year_start :: regex where
  "re_year_start = seqs [Bol, year, many1 isWhiteSpace]"

definition re_volume :: regex where
  "re_volume = seqs [Star isWhiteSpace, L '','', Star isWhiteSpace, many1 isDigit,
     Opt (seqs [Star isWhiteSpace, L ''('', many1 isDigit, L '')'']),
     Alt (Cls isWhiteSpace) Eol]"

definition re_pages :: regex where
  "re_pages = seqs [Star isWhiteSpace, L '','', Star isWhiteSpace, L ''p'', Opt (L ''p''),
     Star isWhiteSpace, many1 digitOrDash]"

definition re_range :: regex where
  "re_range = seqs [Star isWhiteSpace, L '','', Star isWhiteSpace, many1 isDigit, L ''-'',
     many1 isDigit, Star isWhiteSpace, Eol]"

definition re_proceedings :: regex where
  "re_proceedings =
     Seq Bol (words [''proceedings of the '', ''proceedings of '', ''proceedings ''])"

definition re_workshop :: regex where
  "re_workshop = Alt (L ''workshop'') (Seq (L ''ws'') WordB)"

subsection \<open>The patterns of the rules, in the order of the source\<close>

definition re_cvpr1 :: regex where
  "re_cvpr1 = alts [L ''computer vision and pattern recognition'', L ''cvpr'',
     gaps [''cvf'', ''computer vision and pattern''],
     gaps [''proceedings'', ''cvpr''],
     gaps [''ieee'', ''cvf'', ''computer vision and pattern recognition'']]"

definition re_cvpr2 :: regex where
  "re_cvpr2 = gaps [''ieee'', ''computer'', ''society'', ''conference'',
     ''computer vision and pattern'']"

definition re_cvpr3 :: regex where
  "re_cvpr3 = gaps [''proceedings'', ''ieee'', ''conference'', ''computer vision and pattern'']"

definition re_cvpr4 :: regex where
  "re_cvpr4 = gaps [''ieee'', ''conference'', ''computer vision and pattern'']"

definition re_cvpr5 :: regex where
  "re_cvpr5 = seqs [year, Lazy dot,
     gaps [''proceedings'', ''ieee'', ''conference'', ''computer vision and pattern'']]"

definition re_cvpr6 :: regex where
  "re_cvpr6 = seqs [year, Lazy dot,
     gaps [''ieee'', ''computer'', ''society'', ''conference'', ''computer vision'']]"

definition re_iccv1 :: regex where
  "re_iccv1 = alts [L ''international conference on computer vision'', L ''iccv'',
     gaps [''proceedings'', ''iccv''],
     gaps [''ieee'', ''international conference on computer vision'']]"

definition re_iccv2 :: regex where
  "re_iccv2 = gaps [''ieee'', ''international'', ''conference'', ''computer vision'']"

definition re_iccv3 :: regex where
  "re_iccv3 = gaps [''proceedings'', ''ieee'', ''international'', ''conference'',
     ''computer vision'']"

definition re_eccv1 :: regex where
  "re_eccv1 = alts [L ''european conference on computer vision'', L ''eccv'',
     gaps [''proceedings'', ''eccv'']]"

definition re_eccv2 :: regex where
  "re_eccv2 = gaps [''european'', ''conference'', ''computer vision'']"

definition re_wacv :: regex where
  "re_wacv = alts [L ''winter conference on applications of computer vision'', L ''wacv'',
     gaps [''ieee'', ''cvf'', ''winter conference''],
     gaps [''cvf'', ''winter conference'']]"

definition re_bmvc :: regex where
  "re_bmvc = words [''british machine vision conference'', ''bmvc'']"

definition re_accv :: regex where
  "re_accv = words [''asian conference on computer vision'', ''accv'']"

definition re_neurips :: regex where
  "re_neurips = alts [L ''neural information processing systems'', L ''neurips'', L ''nips'',
     L ''advances in neural information processing'',
     gaps [''conference'', ''neural information processing''],
     gaps [''proceedings'', ''nips''],
     gaps [''proceedings'', ''neurips'']]"

definition re_icml :: regex where
  "re_icml = alts [L ''international conference on machine learning'', L ''icml'',
     gaps [''proceedings'', ''icml'']]"

definition re_iclr :: regex where
  "re_iclr = words [''international conference on learning representations'', ''iclr'']"

definition re_aistats :: regex where
  "re_aistats = words [''artificial intelligence and statistics'', ''aistats'',
     ''international conference on artificial intelligence and statistics'']"

definition re_aaai :: regex where
  "re_aaai = alts [L ''aaai'',
     L ''association for the advancement of artificial intelligence'',
     L ''national conference on artificial intelligence'',
     gaps [''proceedings'', ''aaai'']]"

definition re_ijcai :: regex where
  "re_ijcai = words [''international joint conference on artificial intelligence'', ''ijcai'']"

definition re_uai :: regex where
  "re_uai = words [''uncertainty in artificial intelligence'', ''uai'']"

definition re_acl :: regex where
  "re_acl = alts [L ''association for computational linguistics'', L ''acl'',
     gaps [''proceedings'', ''acl'']]"

definition re_not_acl :: regex where
  "re_not_acl = words [''naacl'', ''eacl'']"

definition re_naacl :: regex where
  "re_naacl = alts [L ''north american chapter'', L ''naacl'', gaps [''findings'', ''naacl'']]"

definition re_emnlp :: regex where
  "re_emnlp = words [''empirical methods in natural language processing'', ''emnlp'']"

definition re_conll :: regex where
  "re_conll = words [''conference on computational natural language learning'', ''conll'']"

definition re_eacl :: regex where
  "re_eacl = alts [gaps [''european chapter'', ''acl''], L ''eacl'']"

definition re_coling :: regex where
  "re_coling = words [''international conference on computational linguistics'', ''coling'']"

definition re_kdd :: regex where
  "re_kdd = alts [L ''sigkdd'', L ''knowledge discovery and data mining'', L ''kdd'',
     gaps [''proceedings'', ''kdd'']]"

definition re_icdm :: regex where
  "re_icdm = words [''international conference on data mining'', ''icdm'']"

definition re_www :: regex where
  "re_www = words [''world wide web conference'', ''www'', ''international world wide web'']"

definition re_icra :: regex where
  "re_icra = alts [L ''international conference on robotics and automation'', L ''icra'',
     gaps [''ieee'', ''robotics and automation'']]"

definition re_iros :: regex where
  "re_iros = alts [L ''intelligent robots and systems'', L ''iros'',
     gaps [''ieee'', ''rsj'', ''intelligent robots'']]"

definition re_icassp :: regex where
  "re_icassp = alts [gaps [''acoustics'', ''speech'', ''signal processing''], L ''icassp'',
     L ''international conference on acoustics'']"

definition re_icip :: regex where
  "re_icip = words [''international conference on image processing'', ''icip'']"

definition re_miccai1 :: regex where
  "re_miccai1 = alts [seqs [L ''medical image computing and computer'', Cls dot,
       L ''assisted intervention''], L ''miccai'']"

definition re_miccai2 :: regex where
  "re_miccai2 = seqs [L ''international conference on medical image computing and computer'',
     Cls dot, L ''assisted'']"

definition re_miccai3 :: regex where
  "re_miccai3 = seqs [L ''medical image computing and computer'', Cls dot, L ''assisted'']"

definition re_ipmi :: regex where
  "re_ipmi = words [''information processing in medical imaging'', ''ipmi'']"

definition re_siggraph :: regex where
  "re_siggraph = words [''siggraph'', ''computer graphics and interactive techniques'']"

definition re_vis :: regex where
  "re_vis = alts [L ''ieee visualization'', Seq (L ''vis'') (Cls isWhiteSpace),
     L ''visualization conference'']"

definition re_tpami :: regex where
  "re_tpami = alts [L ''transactions on pattern analysis and machine intelligence'',
     L ''tpami'', gaps [''ieee'', ''pattern analysis'']]"

definition re_tip :: regex where
  "re_tip = words [''transactions on image processing'', ''tip'']"

definition re_tnn :: regex where
  "re_tnn = words [''transactions on neural networks'', ''tnn'', ''tnnls'']"

definition re_tcyb :: regex where
  "re_tcyb = words [''transactions on cybernetics'', ''tcyb'']"

definition re_tmm :: regex where
  "re_tmm = words [''transactions on multimedia'', ''tmm'']"

definition re_access :: regex where
  "re_access = L ''ieee access''"

definition re_ijcv :: regex where
  "re_ijcv = words [''international journal of computer vision'', ''ijcv'']"

definition re_jmlr :: regex where
  "re_jmlr = words [''journal of machine learning research'', ''jmlr'']"

definition re_mlj :: regex where
  "re_mlj = Alt (L ''machine learning journal'') (seqs [Bol, L ''machine learning'', Eol])"

definition re_cviu :: regex where
  "re_cviu = words [''computer vision and image understanding'', ''cviu'']"

definition re_pr :: regex where
  "re_pr = Alt (Seq (L ''pattern recognition'') (Cls isWhiteSpace))
     (Seq (L ''pattern recognition'') Eol)"

definition re_media :: regex where
  "re_media = L ''medical image analysis''"

definition re_neurocomputing :: regex where
  "re_neurocomputing = L ''neurocomputing''"

definition re_science :: regex where
  "re_science = Alt (seqs [Bol, L ''science'', Cls isWhiteSpace])
     (seqs [Bol, Star isWhiteSpace, L ''science'', Eol])"

definition re_natcomm :: regex where
  "re_natcomm = L ''nature communications''"

definition re_natmi :: regex where
  "re_natmi = L ''nature machine intelligence''"

definition re_nature :: regex where
  "re_nature = seqs [Bol, L ''nature'', Eol]"

definition re_pnas :: regex where
  "re_pnas = words [''proceedings of the national academy of sciences'', ''pnas'']"

definition re_arxiv :: regex where
  "re_arxiv = words [''arxiv'', ''ar xiv'', ''corr'']"

definition re_biorxiv :: regex where
  "re_biorxiv = L ''biorxiv''"

definition re_patent :: regex where
  "re_patent = words [''patent'', ''us patent'']"

definition re_ssrn :: regex where
  "re_ssrn = words [''ssrn'', ''social science research network'']"

definition re_springer :: regex where
  "re_springer = words [''springer'', ''lecture notes in computer science'', ''lncs'']"

definition re_mitpress :: regex where
  "re_mitpress = L ''mit press''"

definition re_chi :: regex where
  "re_chi = alts [L ''conference on human factors'', Seq (L ''chi'') (Cls isWhiteSpace),
     L ''acm chi'']"

definition re_sigir :: regex where
  "re_sigir = words [''sigir'', ''information retrieval'']"

definition re_interspeech :: regex where
  "re_interspeech = L ''interspeech''"

definition re_isca :: regex where
  "re_isca = L ''isca''"

text \<open>The acronyms of the workshop detection.\<close>

definition re_ws_cvpr :: regex where
  "re_ws_cvpr = L ''cvpr''"

definition re_ws_iccv :: regex where
  "re_ws_iccv = L ''iccv''"

definition re_ws_eccv :: regex where
  "re_ws_eccv = L ''eccv''"

definition re_ws_neurips :: regex where
  "re_ws_neurips = words [''neurips'', ''nips'']"

definition re_ws_icml :: regex where
  "re_ws_icml = L ''icml''"

definition re_ws_aaai :: regex where
  "re_ws_aaai = L ''aaai''"

definition re_ws_ijcai :: regex where
  "re_ws_ijcai = L ''ijcai''"

text \<open>The looser patterns of the last pass; their repetitions are greedy.\<close>

definition re_x_cvpr :: regex where
  "re_x_cvpr = seqs [L ''computer vision'', Star dot, L ''pattern'']"

definition re_x_inst :: regex where
  "re_x_inst = words [''ieee'', ''conference'', ''proceedings'']"

definition re_x_iccv :: regex where
  "re_x_iccv = seqs [L ''international'', Star dot, L ''computer vision'']"

definition re_x_pattern :: regex where
  "re_x_pattern = L ''pattern''"

definition re_x_eccv :: regex where
  "re_x_eccv = seqs [L ''european'', Star dot, L ''computer vision'']"

definition re_x_miccai :: regex where
  "re_x_miccai = seqs [L ''medical'', Star dot, L ''image'', Star dot, L ''computing'']"

subsection \<open>The patterns of the fallback\<close>

definition re_prefix :: regex where
  "re_prefix = Seq Bol (alts [L ''proceedings of the '', L ''proceedings of '',
     L ''proceedings '', seqs [L ''proc'', Opt (L ''.''), many1 isWhiteSpace],
     Seq (L ''the'') (many1 isWhiteSpace)])"

definition re_suffix :: regex where
  "re_suffix = seqs [many1 isWhiteSpace,
     Alt (L ''proceedings'') (Seq (L ''proc'') (Opt (L ''.''))), Eol]"

definition re_trailing_year :: regex where
  "re_trailing_year = seqs [many1 isWhiteSpace, year, Eol]"

definition re_trailing_number :: regex where
  "re_trailing_number = seqs [many1 isWhiteSpace, many1 isDigit, Eol]"

definition re_generic :: regex where
  "re_generic = seqs [Bol,
     words [''the'', ''a'', ''an'', ''in'', ''on'', ''of'', ''and'', ''for'', ''with''], Eol]"

subsection \<open>The rules\<close>

text \<open>
  Each group of rules is the run of \<open>if (...) return ...\<close> statements under one
  heading of the source; \<open>None\<close> stands for falling through to the next statement.
\<close>

text \<open>Computer vision conferences.\<close>

definition rules_vision :: "jstring \<Rightarrow> bool \<Rightarrow> jstring option" where
  "rules_vision lowerVenue isWorkshop =
     (if test re_cvpr1 lowerVenue \<or> test re_cvpr2 lowerVenue \<or>
           test re_cvpr3 lowerVenue \<or> test re_cvpr4 lowerVenue \<or>
           test re_cvpr5 lowerVenue \<or> test re_cvpr6 lowerVenue
      then Some (if isWorkshop then lit ''CVPR Workshop'' else lit ''CVPR'')
      else if test re_iccv1 lowerVenue \<or> test re_iccv2 lowerVenue \<or>
           test re_iccv3 lowerVenue
      then Some (if isWorkshop then lit ''ICCV Workshop'' else lit ''ICCV'')
      else if test re_eccv1 lowerVenue \<or> test re_eccv2 lowerVenue
      then Some (if isWorkshop then lit ''ECCV Workshop'' else lit ''ECCV'')
      else if test re_wacv lowerVenue
      then Some (if isWorkshop then lit ''WACV Workshop'' else lit ''WACV'')
      else if test re_bmvc lowerVenue
      then Some (if isWorkshop then lit ''BMVC Workshop'' else lit ''BMVC'')
      else if test re_accv lowerVenue
      then Some (if isWorkshop then lit ''ACCV Workshop'' else lit ''ACCV'')
      else None)"

text \<open>Machine learning conferences.\<close>

definition rules_learning :: "jstring \<Rightarrow> bool \<Rightarrow> jstring option" where
  "rules_learning lowerVenue isWorkshop =
     (if test re_neurips lowerVenue
      then Some (if isWorkshop then lit ''NeurIPS Workshop'' else lit ''NeurIPS'')
      else if test re_icml lowerVenue
      then Some (if isWorkshop then lit ''ICML Workshop'' else lit ''ICML'')
      else if test re_iclr lowerVenue
      then Some (if isWorkshop then lit ''ICLR Workshop'' else lit ''ICLR'')
      else if test re_aistats lowerVenue
      then Some (if isWorkshop then lit ''AISTATS Workshop'' else lit ''AISTATS'')
      else None)"

text \<open>Artificial intelligence conferences.\<close>

definition rules_ai :: "jstring \<Rightarrow> bool \<Rightarrow> jstring option" where
  "rules_ai lowerVenue isWorkshop =
     (if test re_aaai lowerVenue
      then Some (if isWorkshop then lit ''AAAI Workshop'' else lit ''AAAI'')
      else if test re_ijcai lowerVenue
      then Some (if isWorkshop then lit ''IJCAI Workshop'' else lit ''IJCAI'')
      else if test re_uai lowerVenue
      then Some (if isWorkshop then lit ''UAI Workshop'' else lit ''UAI'')
      else None)"

text \<open>Language processing conferences; the rule of ACL leaves NAACL and EACL to their own rules.\<close>

definition rules_nlp :: "jstring \<Rightarrow> bool \<Rightarrow> jstring option" where
  "rules_nlp lowerVenue isWorkshop =
     (if test re_acl lowerVenue \<and> \<not> test re_not_acl lowerVenue
      then Some (if isWorkshop then lit ''ACL Workshop'' else lit ''ACL'')
      else if test re_naacl lowerVenue
      then Some (if isWorkshop then lit ''NAACL Workshop'' else lit ''NAACL'')
      else if test re_emnlp lowerVenue
      then Some (if isWorkshop then lit ''EMNLP Workshop'' else lit ''EMNLP'')
      else if test re_conll lowerVenue
      then Some (if isWorkshop then lit ''CoNLL Workshop'' else lit ''CoNLL'')
      else if test re_eacl lowerVenue
      then Some (if isWorkshop then lit ''EACL Workshop'' else lit ''EACL'')
      else if test re_coling lowerVenue
      then Some (if isWorkshop then lit ''COLING Workshop'' else lit ''COLING'')
      else None)"

text \<open>Data mining and web conferences.\<close>

definition rules_mining :: "jstring \<Rightarrow> bool \<Rightarrow> jstring option" where
  "rules_mining lowerVenue isWorkshop =
     (if test re_kdd lowerVenue
      then Some (if isWorkshop then lit ''KDD Workshop'' else lit ''ACM SIGKDD'')
      else if test re_icdm lowerVenue
      then Some (if isWorkshop then lit ''ICDM Workshop'' else lit ''ICDM'')
      else if test re_www lowerVenue
      then Some (if isWorkshop then lit ''WWW Workshop'' else lit ''WWW'')
      else None)"

text \<open>Robotics conferences.\<close>

definition rules_robotics :: "jstring \<Rightarrow> bool \<Rightarrow> jstring option" where
  "rules_robotics lowerVenue isWorkshop =
     (if test re_icra lowerVenue
      then Some (if isWorkshop then lit ''ICRA Workshop'' else lit ''ICRA'')
      else if test re_iros lowerVenue
      then Some (if isWorkshop then lit ''IROS Workshop'' else lit ''IROS'')
      else None)"

text \<open>Signal processing conferences.\<close>

definition rules_signal :: "jstring \<Rightarrow> bool \<Rightarrow> jstring option" where
  "rules_signal lowerVenue isWorkshop =
     (if test re_icassp lowerVenue
      then Some (if isWorkshop then lit ''ICASSP Workshop'' else lit ''ICASSP'')
      else if test re_icip lowerVenue
      then Some (if isWorkshop then lit ''ICIP Workshop'' else lit ''ICIP'')
      else None)"

text \<open>Medical imaging conferences.\<close>

definition rules_medical :: "jstring \<Rightarrow> bool \<Rightarrow> jstring option" where
  "rules_medical lowerVenue isWorkshop =
     (if test re_miccai1 lowerVenue \<or> test re_miccai2 lowerVenue \<or>
           test re_miccai3 lowerVenue
      then Some (if isWorkshop then lit ''MICCAI Workshop'' else lit ''MICCAI'')
      else if test re_ipmi lowerVenue
      then Some (if isWorkshop then lit ''IPMI Workshop'' else lit ''IPMI'')
      else None)"

text \<open>Graphics and visualization.\<close>

definition rules_graphics :: "jstring \<Rightarrow> bool \<Rightarrow> jstring option" where
  "rules_graphics lowerVenue isWorkshop =
     (if test re_siggraph lowerVenue
      then Some (if isWorkshop then lit ''SIGGRAPH Workshop'' else lit ''SIGGRAPH'')
      else if test re_vis lowerVenue
      then Some (if isWorkshop then lit ''IEEE VIS Workshop'' else lit ''IEEE VIS'')
      else None)"

text \<open>IEEE transactions; these rules have no workshop variant.\<close>

definition rules_transactions :: "jstring \<Rightarrow> bool \<Rightarrow> jstring option" where
  "rules_transactions lowerVenue isWorkshop =
     (if test re_tpami lowerVenue
      then Some (lit ''IEEE TPAMI'')
      else if test re_tip lowerVenue
      then Some (lit ''IEEE TIP'')
      else if test re_tnn lowerVenue
      then Some (lit ''IEEE TNN'')
      else if test re_tcyb lowerVenue
      then Some (lit ''IEEE TCYB'')
      else if test re_tmm lowerVenue
      then Some (lit ''IEEE TMM'')
      else if test re_access lowerVenue
      then Some (lit ''IEEE Access'')
      else None)"

text \<open>Other journals.\<close>

definition rules_journals :: "jstring \<Rightarrow> bool \<Rightarrow> jstring option" where
  "rules_journals lowerVenue isWorkshop =
     (if test re_ijcv lowerVenue
      then Some (lit ''IJCV'')
      else if test re_jmlr lowerVenue
      then Some (lit ''JMLR'')
      else if test re_mlj lowerVenue
      then Some (lit ''Machine Learning Journal'')
      else if test re_cviu lowerVenue
      then Some (lit ''CVIU'')
      else if test re_pr lowerVenue
      then Some (lit ''Pattern Recognition'')
      else if test re_media lowerVenue
      then Some (lit ''Medical Image Analysis'')
      else if test re_neurocomputing lowerVenue
      then Some (lit ''Neurocomputing'')
      else None)"

text \<open>High-impact journals.\<close>

definition rules_highimpact :: "jstring \<Rightarrow> bool \<Rightarrow> jstring option" where
  "rules_highimpact lowerVenue isWorkshop =
     (if test re_science lowerVenue
      then Some (lit ''Science'')
      else if test re_natcomm lowerVenue
      then Some (lit ''Nature Communications'')
      else if test re_natmi lowerVenue
      then Some (lit ''Nature Machine Intelligence'')
      else if test re_nature lowerVenue
      then Some (lit ''Nature'')
      else if test re_pnas lowerVenue
      then Some (lit ''PNAS'')
      else None)"

text \<open>Preprints and other sources.\<close>

definition rules_preprints :: "jstring \<Rightarrow> bool \<Rightarrow> jstring option" where
  "rules_preprints lowerVenue isWorkshop =
     (if test re_arxiv lowerVenue
      then Some (lit ''arXiv'')
      else if test re_biorxiv lowerVenue
      then Some (lit ''bioRxiv'')
      else if test re_patent lowerVenue
      then Some (lit ''US Patents'')
      else if test re_ssrn lowerVenue
      then Some (lit ''Available at SSRN'')
      else None)"

text \<open>Publishers.\<close>

definition rules_publishers :: "jstring \<Rightarrow> bool \<Rightarrow> jstring option" where
  "rules_publishers lowerVenue isWorkshop =
     (if test re_springer lowerVenue
      then Some (lit ''Springer'')
      else if test re_mitpress lowerVenue
      then Some (lit ''MIT Press'')
      else None)"

text \<open>Additional conferences.\<close>

definition rules_additional :: "jstring \<Rightarrow> bool \<Rightarrow> jstring option" where
  "rules_additional lowerVenue isWorkshop =
     (if test re_chi lowerVenue
      then Some (if isWorkshop then lit ''CHI Workshop'' else lit ''ACM CHI'')
      else if test re_sigir lowerVenue
      then Some (if isWorkshop then lit ''SIGIR Workshop'' else lit ''ACM SIGIR'')
      else if test re_interspeech lowerVenue
      then Some (if isWorkshop then lit ''INTERSPEECH Workshop'' else lit ''INTERSPEECH'')
      else if test re_isca lowerVenue
      then Some (lit ''ISCA'')
      else None)"

text \<open>The generic workshop handling.\<close>

definition workshop_detection :: "jstring \<Rightarrow> bool \<Rightarrow> jstring option" where
  "workshop_detection lowerVenue isWorkshop =
     (if isWorkshop then
        (if test re_ws_cvpr lowerVenue then Some (lit ''CVPR Workshop'')
         else if test re_ws_iccv lowerVenue then Some (lit ''ICCV Workshop'')
         else if test re_ws_eccv lowerVenue then Some (lit ''ECCV Workshop'')
         else if test re_ws_neurips lowerVenue then Some (lit ''NeurIPS Workshop'')
         else if test re_ws_icml lowerVenue then Some (lit ''ICML Workshop'')
         else if test re_ws_aaai lowerVenue then Some (lit ''AAAI Workshop'')
         else if test re_ws_ijcai lowerVenue then Some (lit ''IJCAI Workshop'')
         else Some (lit ''Workshop''))
      else None)"

text \<open>The additional pattern matching for the variants that slipped through.\<close>

definition rules_remaining :: "jstring \<Rightarrow> bool \<Rightarrow> jstring option" where
  "rules_remaining lowerVenue isWorkshop =
     (if test re_x_cvpr lowerVenue \<and> test re_x_inst lowerVenue
      then Some (if isWorkshop then lit ''CVPR Workshop'' else lit ''CVPR'')
      else if test re_x_iccv lowerVenue \<and> test re_x_inst lowerVenue \<and>
           \<not> test re_x_pattern lowerVenue
      then Some (if isWorkshop then lit ''ICCV Workshop'' else lit ''ICCV'')
      else if test re_x_eccv lowerVenue
      then Some (if isWorkshop then lit ''ECCV Workshop'' else lit ''ECCV'')
      else if test re_x_miccai lowerVenue
      then Some (if isWorkshop then lit ''MICCAI Workshop'' else lit ''MICCAI'')
      else None)"

definition orElse :: "'a option \<Rightarrow> 'a option \<Rightarrow> 'a option" where
  "orElse a b = (case a of Some x \<Rightarrow> Some x | None \<Rightarrow> b)"

text \<open>The rules before the rule of ACL, and the whole cascade: the first match wins.\<close>

definition rules_before_acl :: "jstring \<Rightarrow> bool \<Rightarrow> jstring option" where
  "rules_before_acl lowerVenue isWorkshop =
     orElse (rules_vision lowerVenue isWorkshop)
    (orElse (rules_learning lowerVenue isWorkshop)
            (rules_ai lowerVenue isWorkshop))"

definition classify :: "jstring \<Rightarrow> bool \<Rightarrow> jstring option" where
  "classify lowerVenue isWorkshop =
     orElse (rules_before_acl lowerVenue isWorkshop)
    (orElse (rules_nlp lowerVenue isWorkshop)
    (orElse (rules_mining lowerVenue isWorkshop)
    (orElse (rules_robotics lowerVenue isWorkshop)
    (orElse (rules_signal lowerVenue isWorkshop)
    (orElse (rules_medical lowerVenue isWorkshop)
    (orElse (rules_graphics lowerVenue isWorkshop)
    (orElse (rules_transactions lowerVenue isWorkshop)
    (orElse (rules_journals lowerVenue isWorkshop)
    (orElse (rules_highimpact lowerVenue isWorkshop)
    (orElse (rules_preprints lowerVenue isWorkshop)
    (orElse (rules_publishers lowerVenue isWorkshop)
    (orElse (rules_additional lowerVenue isWorkshop)
    (orElse (workshop_detection lowerVenue isWorkshop)
            (rules_remaining lowerVenue isWorkshop))))))))))))))"

subsection \<open>Clean-up, fallback and the function itself\<close>

text \<open>Lines 430 to 450: the truncation mark, years, volumes, pages, the prefix, blanks.\<close>

definition clean :: "jstring \<Rightarrow> jstring" where
  "clean venueText =
     (let v1 = trim (replace re_ellipsis [] venueText);
          v2 = replace re_year_comma (lit '' '') v1;
          v3 = replace re_year_end [] v2;
          v4 = replace re_year_start [] v3;
          v5 = replace re_volume (lit '' '') v4;
          v6 = replace_i re_pages [] v5;
          v7 = replace re_range [] v6;
          v8 = replace_i re_proceedings [] v7
      in trim (collapse_spaces v8))"

definition simplify :: "jstring \<Rightarrow> jstring" where
  "simplify venueText =
     (let s1 = trim (split_first venueText);
          s2 = replace_i re_prefix [] s1;
          s3 = replace_i re_suffix [] s2;
          s4 = replace re_trailing_year [] s3;
          s5 = replace re_trailing_number [] s4
      in trim s5)"

definition fallback :: "jstring \<Rightarrow> jstring option" where
  "fallback venueText =
     (let simplifiedVenue = simplify venueText in
      if length simplifiedVenue < 3 \<or> test re_generic simplifiedVenue then None
      else if simplifiedVenue = [] then None
      else Some simplifiedVenue)"

text \<open>\<open>None\<close> is the \<open>null\<close> of the source.\<close>

definition normalizeVenue :: "jstring \<Rightarrow> jstring option" where
  "normalizeVenue venueText0 =
     (if venueText0 = [] then None
      else
        let venueText = clean venueText0;
            lowerVenue = toLowerCase venueText;
            isWorkshop = test re_workshop venueText
        in orElse (classify lowerVenue isWorkshop) (fallback venueText))"

section \<open>extractVenueData\<close>

text \<open>
  A publication row, as far as the extraction reads it: the text contents of its
  elements of class \<open>gs_gray\<close>, in document order, and the text content of its
  first element of class \<open>gsc_a_j\<close>, if there is one.
\<close>

record pub =
  gs_gray :: "jstring list"
  gsc_a_j :: "jstring option"

text \<open>
  The text content of the venue element: the second gray element, else the only one,
  else the element of class \<open>gsc_a_j\<close>; a row without any gray element has no
  first gray element either, so the last alternative of the source yields \<open>null\<close>.
\<close>

definition venueElement :: "pub \<Rightarrow> jstring option" where
  "venueElement p =
     (case gs_gray p of
        [] \<Rightarrow> gsc_a_j p
      | [only] \<Rightarrow> Some only
      | first # second # others \<Rightarrow> Some second)"

text \<open>
  The tally \<open>venues\<close> is an ordinary object created by \<open>{}\<close>. Its own properties
  are kept in the order of their creation; a read of a name that is not an own property
  goes on to \<open>Object.prototype\<close>. A value stored in the tally is a number or, when
  \<open>+ 1\<close> was applied to something that is not a number, a string that does not
  denote a number.
\<close>

datatype count = Num nat | NaS

type_synonym tally = "(jstring \<times> count) list"

text \<open>
  Modelled from the language specification: the property names of \<open>Object.prototype\<close>,
  which the script does not declare. All of them hold functions, except \<open>__proto__\<close>,
  an accessor whose getter yields \<open>Object.prototype\<close> itself and whose setter
  ignores a value that is neither an object nor \<open>null\<close>.
\<close>

definition object_prototype_keys :: "jstring list" where
  "object_prototype_keys = map lit [''constructor'', ''__defineGetter__'',
     ''__defineSetter__'', ''hasOwnProperty'', ''__lookupGetter__'', ''__lookupSetter__'',
     ''isPrototypeOf'', ''propertyIsEnumerable'', ''toString'', ''valueOf'', ''__proto__'',
     ''toLocaleString'']"

fun assign :: "jstring \<Rightarrow> count \<Rightarrow> tally \<Rightarrow> tally" where
  "assign k v [] = [(k, v)]"
| "assign k v ((k', v') # ps) = (if k' = k then (k, v) # ps else (k', v') # assign k v ps)"

text \<open>
  \<open>venues[k] = (venues[k] || 0) + 1\<close>. An own number is incremented. An own string
  gets a \<open>1\<close> appended. Without an own property the read finds either nothing, and
  the new own property is \<open>0 + 1\<close>, or an inherited function or object, which is
  truthy, and \<open>+ 1\<close> turns it into a string; that string becomes an own property,
  except under \<open>__proto__\<close>, whose setter drops it.
\<close>

definition increment :: "tally \<Rightarrow> jstring \<Rightarrow> tally" where
  "increment venues k =
     (case map_of venues k of
        Some (Num n) \<Rightarrow> assign k (Num (n + 1)) venues
      | Some NaS \<Rightarrow> assign k NaS venues
      | None \<Rightarrow>
          if k \<in> set object_prototype_keys
          then (if k = lit ''__proto__'' then venues else assign k NaS venues)
          else assign k (Num 1) venues)"

text \<open>
  \<open>Object.entries\<close>: the own properties whose names are array indices come first, in
  ascending numeric order, then the others in the order of their creation.
\<close>

definition decimal :: "jstring \<Rightarrow> nat" where
  "decimal k = foldl (\<lambda>a c. 10 * a + (c - 48)) 0 k"

definition array_index :: "jstring \<Rightarrow> nat option" where
  "array_index k =
     (if k \<noteq> [] \<and> list_all isDigit k \<and> (k = [48] \<or> hd k \<noteq> 48) \<and> decimal k < 4294967295
      then Some (decimal k) else None)"

definition object_entries :: "tally \<Rightarrow> tally" where
  "object_entries venues =
     sort_key (\<lambda>e. decimal (fst e)) (filter (\<lambda>e. array_index (fst e) \<noteq> None) venues) @
     filter (\<lambda>e. array_index (fst e) = None) venues"

text \<open>
  \<open>.sort((a, b) => b.count - a.count)\<close>. The difference of two numbers is their
  difference; with a string on either side it is \<open>NaN\<close>, which the sort takes for
  \<open>+0\<close>.
\<close>

definition compareFn :: "jstring \<times> count \<Rightarrow> jstring \<times> count \<Rightarrow> int" where
  "compareFn a b =
     (case (snd a, snd b) of
        (Num x, Num y) \<Rightarrow> int y - int x
      | _ \<Rightarrow> 0)"

text \<open>
  Modelled from the language specification, \<open>Array.prototype.sort\<close> being part of
  the engine and not of the script. The sort is stable. When the comparison is a
  consistent order, which it is when all the counts are numbers and also when every
  comparison yields \<open>+0\<close>, the result is determined: it is what insertion from the
  left yields, an element going behind all the elements it does not have to precede.
  Otherwise (a string among numbers that differ) the language leaves the order to the
  implementation; all that is known of \<open>implementation_order\<close> is that it rearranges
  its argument.
\<close>

definition is_number :: "jstring \<times> count \<Rightarrow> bool" where
  "is_number e = (case snd e of Num n \<Rightarrow> True | NaS \<Rightarrow> False)"

definition consistent_comparator :: "tally \<Rightarrow> bool" where
  "consistent_comparator xs =
     (if list_all is_number xs then True
      else list_all (\<lambda>a. list_all (\<lambda>b. compareFn a b = 0) xs) xs)"

fun insert_sorted :: "jstring \<times> count \<Rightarrow> tally \<Rightarrow> tally" where
  "insert_sorted x [] = [x]"
| "insert_sorted x (y # ys) =
     (if compareFn y x > 0 then x # y # ys else y # insert_sorted x ys)"

definition implementation_order :: "tally \<Rightarrow> tally" where
  "implementation_order =
     (SOME f. \<forall>xs e. count_list (f xs) e = count_list xs e)"

definition js_sort :: "tally \<Rightarrow> tally" where
  "js_sort xs =
     (if consistent_comparator xs then foldl (\<lambda>acc x. insert_sorted x acc) [] xs
      else implementation_order xs)"

record extraction =
  venueArray :: tally
  processedCount :: nat
  skippedCount :: nat

text \<open>The body of the \<open>forEach\<close>; \<open>if (normalizedVenue)\<close> also rejects the empty string.\<close>

definition extract_step :: "tally \<times> nat \<times> nat \<Rightarrow> pub \<Rightarrow> tally \<times> nat \<times> nat" where
  "extract_step st p =
     (case st of (venues, processed, skipped) \<Rightarrow>
        (case venueElement p of
           None \<Rightarrow> (venues, processed, skipped + 1)
         | Some textContent \<Rightarrow>
             (case normalizeVenue (trim textContent) of
                None \<Rightarrow> (venues, processed, skipped + 1)
              | Some normalizedVenue \<Rightarrow>
                  if normalizedVenue = [] then (venues, processed, skipped + 1)
                  else (increment venues normalizedVenue, processed + 1, skipped))))"

definition extractVenueData :: "pub list \<Rightarrow> extraction" where
  "extractVenueData publications =
     (case foldl extract_step ([], 0, 0) publications of (venues, processed, skipped) \<Rightarrow>
        \<lparr>venueArray = js_sort (object_entries venues),
         processedCount = processed, skippedCount = skipped\<rparr>)"


section \<open>The page and the loading of all publications\<close>

subsection \<open>Elements and the search for the button\<close>

text \<open>
  An element, as far as the search for the button and the loading read it: its tag
  name, its \<open>id\<close>, its classes, its attributes \<open>role\<close> and \<open>onclick\<close>, its text
  content, whether its \<open>offsetParent\<close> is \<open>null\<close>, whether its \<open>disabled\<close> is
  truthy, its property \<open>href\<close>, whether it lies in a cell \<open>td.gsc_a_t\<close>, and
  whether it has the method \<open>click\<close>, which the elements of HTML have and the
  elements of SVG do not. The property \<open>href\<close> is absent, or a string, or, for a link
  of SVG, an object that has no method \<open>includes\<close>.
\<close>

datatype href_value = NoHref | HrefString jstring | HrefObject

record element =
  tagName :: jstring
  element_id :: jstring
  classList :: "jstring list"
  role :: "jstring option"
  onclick :: "jstring option"
  textContent :: jstring
  offsetParent_null :: bool
  disabled :: bool
  href :: href_value
  inside_title_cell :: bool
  has_click :: bool

datatype js_error = JsError jstring

text \<open>
  \<open>isNotPaperLink\<close>: the conjunction stops at its first false operand;
  \<open>element.href?.includes(...)\<close> is \<open>undefined\<close> without \<open>href\<close> and raises a
  \<open>TypeError\<close> when \<open>href\<close> is an object without \<open>includes\<close>.
\<close>

definition isNotPaperLink :: "element \<Rightarrow> js_error + bool" where
  "isNotPaperLink element =
     (if inside_title_cell element then Inr False
      else if lit ''gsc_a_at'' \<in> set (classList element) then Inr False
      else
        (case href element of
           NoHref \<Rightarrow> Inr True
         | HrefString h \<Rightarrow> Inr (\<not> includes_str (lit ''view_citation'') h)
         | HrefObject \<Rightarrow>
             Inl (JsError (lit ''element.href?.includes is not a function''))))"

definition isValidShowMoreButtonFast :: "element \<Rightarrow> js_error + bool" where
  "isValidShowMoreButtonFast element =
     (let isVisible = \<not> offsetParent_null element;
          isEnabled = \<not> disabled element;
          text = trim (toLowerCase (textContent element));
          hasValidText =
            (includes_str (lit ''show more'') text \<or> includes_str (lit ''more'') text \<or>
             text = lit ''show'' \<or> element_id element = lit ''gsc_bpf_more'')
      in case isNotPaperLink element of
           Inl e \<Rightarrow> Inl e
         | Inr notPaperLink \<Rightarrow>
             Inr (isVisible \<and> isEnabled \<and> hasValidText \<and> notPaperLink))"

text \<open>
  The selectors of \<open>findShowMoreButtonSync\<close>. A type selector matches the tag name
  whatever its case; an attribute selector compares the value as it is written.
\<close>

definition has_tag :: "string \<Rightarrow> element \<Rightarrow> bool" where
  "has_tag name element = (toLowerCase (tagName element) = lit name)"

definition specificSelectors :: "(element \<Rightarrow> bool) list" where
  "specificSelectors =
     [\<lambda>e. element_id e = lit ''gsc_bpf_more'',
      \<lambda>e. has_tag ''button'' e \<and> element_id e = lit ''gsc_bpf_more'',
      \<lambda>e. lit ''gsc_pgn_pnx'' \<in> set (classList e)]"

definition allButtons :: "element list \<Rightarrow> element list" where
  "allButtons document =
     filter (\<lambda>e. has_tag ''button'' e \<or>
                 (has_tag ''span'' e \<and> role e = Some (lit ''button'')) \<or>
                 (has_tag ''div'' e \<and> role e = Some (lit ''button''))) document"

definition onclickElements :: "element list \<Rightarrow> element list" where
  "onclickElements document =
     filter (\<lambda>e. case onclick e of
                   None \<Rightarrow> False
                 | Some v \<Rightarrow> includes_str (lit ''gsc'') v \<or> includes_str (lit ''more'') v)
       document"

text \<open>
  The three loops have one shape: the first element of a list that passes the
  validation is returned, and an error of the validation ends the search. In the
  first loop the list is made of the first match of each selector that has one; in
  the second loop the validation is only reached by an element with the right text.
\<close>

fun first_valid :: "element list \<Rightarrow> js_error + element option" where
  "first_valid [] = Inr None"
| "first_valid (element # elements) =
     (case isValidShowMoreButtonFast element of
        Inl e \<Rightarrow> Inl e
      | Inr True \<Rightarrow> Inr (Some element)
      | Inr False \<Rightarrow> first_valid elements)"

definition has_button_text :: "element \<Rightarrow> bool" where
  "has_button_text element =
     (let text = trim (toLowerCase (textContent element))
      in text = lit ''show more'' \<or> text = lit ''more'' \<or>
         includes_str (lit ''show more'') text)"

definition find_button :: "element list \<Rightarrow> js_error + element option" where
  "find_button document =
     (case first_valid (List.map_filter (\<lambda>selector. find selector document)
                          specificSelectors) of
        Inl e \<Rightarrow> Inl e
      | Inr (Some button) \<Rightarrow> Inr (Some button)
      | Inr None \<Rightarrow>
          (case first_valid (filter has_button_text (allButtons document)) of
             Inl e \<Rightarrow> Inl e
           | Inr (Some element) \<Rightarrow> Inr (Some element)
           | Inr None \<Rightarrow> first_valid (onclickElements document)))"

subsection \<open>The page\<close>

text \<open>
  What the script asks of the page, for a type \<open>'p\<close> of page states: the address of
  the page; the publication rows (\<open>document.querySelectorAll\<close> of a constant
  selector, which cannot fail); the elements of the document, in document order;
  what a click on an element makes of the page; and the passing of time:
  \<open>setTimeout d delay p\<close> is the page state when a callback scheduled in \<open>p\<close> with
  \<open>delay\<close> milliseconds runs, and by how many milliseconds it runs late.
\<close>

record 'p dom =
  location_href :: "'p \<Rightarrow> jstring"
  rows :: "'p \<Rightarrow> pub list"
  elements :: "'p \<Rightarrow> element list"
  dispatch_click :: "element \<Rightarrow> 'p \<Rightarrow> 'p"
  setTimeout :: "nat \<Rightarrow> 'p \<Rightarrow> 'p \<times> nat"

definition findShowMoreButtonSync :: "'p dom \<Rightarrow> 'p \<Rightarrow> js_error + element option" where
  "findShowMoreButtonSync d p = find_button (elements d p)"

text \<open>
  The first statements of the \<open>try\<close> block: the registration of a listener, which
  changes nothing that the script reads, and \<open>showMoreButton.click()\<close>, which raises
  a \<open>TypeError\<close> on an element without that method.
\<close>

definition click :: "'p dom \<Rightarrow> element \<Rightarrow> 'p \<Rightarrow> 'p \<times> js_error option" where
  "click d showMoreButton p =
     (if has_click showMoreButton then (dispatch_click d showMoreButton p, None)
      else (p, Some (JsError (lit ''showMoreButton.click is not a function''))))"

subsection \<open>The loading\<close>

text \<open>
  \<open>checkForNewPublications\<close>, with the time \<open>Date.now() - startTime\<close> that has
  passed as an argument: at the first check it is 0, and each later check runs the
  delay, and what the timer is late, after the one before.
\<close>

function checkForNewPublications ::
  "'p dom \<Rightarrow> nat \<Rightarrow> nat \<Rightarrow> nat \<Rightarrow> nat \<Rightarrow> 'p \<Rightarrow> nat \<times> 'p" where
  "checkForNewPublications d previousCount timeout consecutiveFailures elapsed p =
     (let currentCount = length (rows d p) in
      if currentCount > previousCount then (currentCount, p)
      else if elapsed > timeout then (currentCount, p)
      else
        (let failures = consecutiveFailures + 1;
             delay = (if failures < 5 then 50 else if failures < 15 then 200 else 500)
         in checkForNewPublications d previousCount timeout failures
              (elapsed + delay + snd (setTimeout d delay p)) (fst (setTimeout d delay p))))"
  by pat_completeness auto

termination
  by (relation "measure (\<lambda>(d, previousCount, timeout, failures, elapsed, p).
        timeout + 1 - elapsed)") auto

declare checkForNewPublications.simps [simp del]

definition waitForNewPublicationsOptimized ::
  "'p dom \<Rightarrow> nat \<Rightarrow> nat \<Rightarrow> 'p \<Rightarrow> nat \<times> 'p" where
  "waitForNewPublicationsOptimized d previousCount timeout p =
     checkForNewPublications d previousCount timeout 0 0 p"

definition maxAttempts :: nat where
  "maxAttempts = 200"

text \<open>
  The \<open>while\<close> loop of \<open>loadAllPublications\<close>. It ends with the number of attempts
  and the page state, or with the error that \<open>findShowMoreButtonSync\<close> raised, which
  is called before the \<open>try\<close> block is entered. An error of the click is caught
  and ends the loop.
\<close>

function pagination ::
  "'p dom \<Rightarrow> nat \<Rightarrow> nat \<Rightarrow> 'p \<Rightarrow> js_error + nat \<times> 'p" where
  "pagination d attempts publicationsBefore p =
     (if attempts < maxAttempts then
        (case findShowMoreButtonSync d p of
           Inl e \<Rightarrow> Inl e
         | Inr None \<Rightarrow> Inr (attempts, p)
         | Inr (Some showMoreButton) \<Rightarrow>
             (case click d showMoreButton p of
                (p1, Some e) \<Rightarrow> Inr (attempts, p1)
              | (p1, None) \<Rightarrow>
                  (case waitForNewPublicationsOptimized d publicationsBefore 10000 p1 of
                     (newCount, p2) \<Rightarrow>
                       if newCount = publicationsBefore then Inr (attempts, p2)
                       else pagination d (attempts + 1) newCount
                              (fst (setTimeout d 300 p2)))))
      else Inr (attempts, p))"
  by pat_completeness auto

termination
  by (relation "measure (\<lambda>(d, attempts, publicationsBefore, p). maxAttempts - attempts)") auto

declare pagination.simps [simp del]

record 'p loaded =
  finalCount :: nat
  attemptsUsed :: nat
  pageAfter :: 'p

text \<open>
  \<open>loadAllPublications\<close> resolves with \<open>finalCount\<close>; the number of attempts, which
  the source logs, and the page state after the last wait are kept with it.
\<close>

definition loadAllPublications :: "'p dom \<Rightarrow> 'p \<Rightarrow> js_error + 'p loaded" where
  "loadAllPublications d p =
     (case pagination d 0 (length (rows d p)) p of
        Inl e \<Rightarrow> Inl e
      | Inr (attempts, p1) \<Rightarrow>
          Inr \<lparr>finalCount = length (rows d p1), attemptsUsed = attempts,
               pageAfter = fst (setTimeout d 500 p1)\<rparr>)"

section \<open>analyzeAllVenues and the message listener\<close>

definition isValidScholarProfilePage :: "jstring \<Rightarrow> bool" where
  "isValidScholarProfilePage url =
     (if \<not> includes_str (lit ''scholar.google.'') url then False
      else if \<not> includes_str (lit ''/citations?'') url then False
      else if includes_str (lit ''view_op=view_citation'') url then False
      else includes_str (lit ''user='') url \<and>
           (includes_str (lit ''view_op=list_works'') url \<or>
            \<not> includes_str (lit ''view_op='') url \<or>
            includes_str (lit ''view_op=list_colleagues'') url))"

definition msg_not_profile :: jstring where
  "msg_not_profile = lit (''This page doesn't appear to be a Google Scholar profile with'' @
     '' publications. Please navigate to a profile page like:'' @
     '' scholar.google.com/citations?user=...'')"

definition msg_no_publications :: jstring where
  "msg_no_publications = lit (''No publications found on this page. Make sure you are on'' @
     '' the 'ARTICLES' tab of a Google Scholar profile page with publications.'')"

definition msg_no_venues :: jstring where
  "msg_no_venues = lit (''No venues could be extracted from the publications. Please'' @
     '' check if you're on the ARTICLES tab of a Scholar profile.'')"


text \<open>
  \<open>totalPubsFromVenues\<close>, which the script logs as its cross-check: the sum of the
  counts, \<open>+\<close> yielding a string as soon as one operand is a string.
\<close>

definition add_count :: "count \<Rightarrow> count \<Rightarrow> count" where
  "add_count acc c = (case (acc, c) of (Num a, Num b) \<Rightarrow> Num (a + b) | _ \<Rightarrow> NaS)"

definition totalPubsFromVenues :: "tally \<Rightarrow> count" where
  "totalPubsFromVenues items = foldl (\<lambda>acc item. add_count acc (snd item)) (Num 0) items"

record analysis =
  venues :: tally
  totalFound :: nat
  totalProcessed :: nat
  totalSkipped :: nat
  success :: bool

text \<open>The \<open>catch\<close> of \<open>analyzeAllVenues\<close> throws the error again.\<close>

definition analyzeAllVenues :: "'p dom \<Rightarrow> 'p \<Rightarrow> js_error + analysis" where
  "analyzeAllVenues d p =
     (if \<not> isValidScholarProfilePage (location_href d p) then Inl (JsError msg_not_profile)
      else if length (rows d p) = 0 then Inl (JsError msg_no_publications)
      else
        (case loadAllPublications d p of
           Inl e \<Rightarrow> Inl e
         | Inr l \<Rightarrow>
             (let actualCount = length (rows d (pageAfter l));
                  venueAnalysisResult = extractVenueData (rows d (pageAfter l))
              in if length (venueArray venueAnalysisResult) = 0
                 then Inl (JsError msg_no_venues)
                 else Inr \<lparr>venues = venueArray venueAnalysisResult,
                           totalFound = actualCount,
                           totalProcessed = processedCount venueAnalysisResult,
                           totalSkipped = skippedCount venueAnalysisResult,
                           success = True\<rparr>)))"

text \<open>
  A response is the analysis, or an object with the field \<open>error\<close> and perhaps the
  field \<open>success\<close>. The state of the script is the flag \<open>isAnalyzing\<close> together
  with the run in flight, which the listener never touches.
\<close>

datatype response = Result analysis | Failure jstring "bool option"

record 'r script_state =
  isAnalyzing :: bool
  inFlight :: 'r


definition onSettled ::
  "js_error + analysis \<Rightarrow> 'r script_state \<Rightarrow> response list \<times> 'r script_state" where
  "onSettled outcome st =
     (case outcome of
        Inr analysisData \<Rightarrow> ([Result analysisData], st\<lparr>isAnalyzing := False\<rparr>)
      | Inl (JsError message) \<Rightarrow> ([Failure message (Some False)], st\<lparr>isAnalyzing := False\<rparr>))"

section \<open>Vocabulary of the statements\<close>

text \<open>
  The labels that the \<open>return\<close> statements of the rules and of the workshop
  detection hold, in the order of the source.
\<close>

definition canonical_labels :: "jstring list" where
  "canonical_labels = map lit [''CVPR Workshop'', ''CVPR'', ''ICCV Workshop'', ''ICCV'', ''ECCV Workshop'',
     ''ECCV'', ''WACV Workshop'', ''WACV'', ''BMVC Workshop'', ''BMVC'',
     ''ACCV Workshop'', ''ACCV'', ''NeurIPS Workshop'', ''NeurIPS'',
     ''ICML Workshop'', ''ICML'', ''ICLR Workshop'', ''ICLR'', ''AISTATS Workshop'',
     ''AISTATS'', ''AAAI Workshop'', ''AAAI'', ''IJCAI Workshop'', ''IJCAI'',
     ''UAI Workshop'', ''UAI'', ''ACL Workshop'', ''ACL'', ''NAACL Workshop'',
     ''NAACL'', ''EMNLP Workshop'', ''EMNLP'', ''CoNLL Workshop'', ''CoNLL'',
     ''EACL Workshop'', ''EACL'', ''COLING Workshop'', ''COLING'', ''KDD Workshop'',
     ''ACM SIGKDD'', ''ICDM Workshop'', ''ICDM'', ''WWW Workshop'', ''WWW'',
     ''ICRA Workshop'', ''ICRA'', ''IROS Workshop'', ''IROS'', ''ICASSP Workshop'',
     ''ICASSP'', ''ICIP Workshop'', ''ICIP'', ''MICCAI Workshop'', ''MICCAI'',
     ''IPMI Workshop'', ''IPMI'', ''SIGGRAPH Workshop'', ''SIGGRAPH'',
     ''IEEE VIS Workshop'', ''IEEE VIS'', ''IEEE TPAMI'', ''IEEE TIP'',
     ''IEEE TNN'', ''IEEE TCYB'', ''IEEE TMM'', ''IEEE Access'', ''IJCV'', ''JMLR'',
     ''Machine Learning Journal'', ''CVIU'', ''Pattern Recognition'',
     ''Medical Image Analysis'', ''Neurocomputing'', ''Science'',
     ''Nature Communications'', ''Nature Machine Intelligence'', ''Nature'',
     ''PNAS'', ''arXiv'', ''bioRxiv'', ''US Patents'', ''Available at SSRN'',
     ''Springer'', ''MIT Press'', ''CHI Workshop'', ''ACM CHI'', ''SIGIR Workshop'',
     ''ACM SIGIR'', ''INTERSPEECH Workshop'', ''INTERSPEECH'', ''ISCA'',
     ''Workshop'']"

text \<open>The labels that the workshop detection forms from a recognized acronym.\<close>

definition acronym_workshop_labels :: "jstring list" where
  "acronym_workshop_labels = map lit [''CVPR Workshop'', ''ICCV Workshop'', ''ECCV Workshop'',
     ''NeurIPS Workshop'', ''ICML Workshop'', ''AAAI Workshop'', ''IJCAI Workshop'']"

text \<open>The words of the last pattern of the fallback.\<close>

definition stop_words :: "jstring list" where
  "stop_words = map lit [''the'', ''a'', ''an'', ''in'', ''on'', ''of'', ''and'', ''for'', ''with'']"

text \<open>
  The workshop flag as the specification words it, to be compared with the flag of the
  source: the text contains \<open>workshop\<close>, or one of its words, the maximal runs of
  word characters, is \<open>ws\<close>; letter case is ignored.
\<close>

fun word_tokens :: "jstring \<Rightarrow> jstring list" where
  "word_tokens [] = []"
| "word_tokens (c # cs) =
     (if isWordChar c
      then (case word_tokens cs of
              [] \<Rightarrow> [[c]]
            | t # ts \<Rightarrow>
                (case cs of
                   [] \<Rightarrow> [c] # t # ts
                 | d # ds \<Rightarrow> if isWordChar d then (c # t) # ts else [c] # t # ts))
      else word_tokens cs)"

definition spec_isWorkshop :: "jstring \<Rightarrow> bool" where
  "spec_isWorkshop v = (includes_str (lit ''workshop'') (map fold_case v) \<or>
     lit ''ws'' \<in> set (word_tokens (map fold_case v)))"

text \<open>The unit before the position that the prefix \<open>a\<close> of the input leads to.\<close>

definition before :: "jchar option \<Rightarrow> jstring \<Rightarrow> jchar option" where
  "before prev a = (if a = [] then prev else Some (last a))"


text \<open>
  The rules that stand before the generic workshop handling, in the order of the
  source.
\<close>

definition primary_rules :: "jstring \<Rightarrow> bool \<Rightarrow> jstring option" where
  "primary_rules lowerVenue isWorkshop =
     orElse (rules_before_acl lowerVenue isWorkshop)
    (orElse (rules_nlp lowerVenue isWorkshop)
    (orElse (rules_mining lowerVenue isWorkshop)
    (orElse (rules_robotics lowerVenue isWorkshop)
    (orElse (rules_signal lowerVenue isWorkshop)
    (orElse (rules_medical lowerVenue isWorkshop)
    (orElse (rules_graphics lowerVenue isWorkshop)
    (orElse (rules_transactions lowerVenue isWorkshop)
    (orElse (rules_journals lowerVenue isWorkshop)
    (orElse (rules_highimpact lowerVenue isWorkshop)
    (orElse (rules_preprints lowerVenue isWorkshop)
    (orElse (rules_publishers lowerVenue isWorkshop)
            (rules_additional lowerVenue isWorkshop))))))))))))"

text \<open>
  The labels, without the workshop flag, of the rules whose \<open>return\<close> statement
  depends on the flag, and the label that such a rule is said to return under the
  flag: the label followed by \<open>Workshop\<close>, with three exceptions.
\<close>

definition workshop_capable :: "jstring list" where
  "workshop_capable = map lit [''CVPR'', ''ICCV'', ''ECCV'', ''WACV'', ''BMVC'', ''ACCV'',
     ''NeurIPS'', ''ICML'', ''ICLR'', ''AISTATS'', ''AAAI'', ''IJCAI'', ''UAI'', ''ACL'',
     ''NAACL'', ''EMNLP'', ''CoNLL'', ''EACL'', ''COLING'', ''ACM SIGKDD'', ''ICDM'', ''WWW'',
     ''ICRA'', ''IROS'', ''ICASSP'', ''ICIP'', ''MICCAI'', ''IPMI'', ''SIGGRAPH'', ''IEEE VIS'',
     ''ACM CHI'', ''ACM SIGIR'', ''INTERSPEECH'']"

definition workshop_label :: "jstring \<Rightarrow> jstring" where
  "workshop_label base =
     (if base = lit ''ACM SIGKDD'' then lit ''KDD Workshop''
      else if base = lit ''ACM CHI'' then lit ''CHI Workshop''
      else if base = lit ''ACM SIGIR'' then lit ''SIGIR Workshop''
      else if base \<in> set workshop_capable then base @ lit '' Workshop''
      else base)"

text \<open>The text of the proceedings of NAACL, as a profile lists it.\<close>

definition naacl_proceedings :: jstring where
  "naacl_proceedings = lit (''Proceedings of the North American Chapter of the'' @
     '' Association for Computational Linguistics'')"

section \<open>Sample pages\<close>

text \<open>The three rows of the scenario, and one row whose venue reads \<open>constructor\<close>.\<close>

definition scenario_rows :: "pub list" where
  "scenario_rows =
     [\<lparr>gs_gray = [lit ''A Author, B Author'',
          lit ''2021 IEEE/CVF Conference on Computer Vision and Pattern Recognition, 2021''],
       gsc_a_j = None\<rparr>,
      \<lparr>gs_gray = [lit ''A Author, B Author'', lit ''arXiv preprint arXiv:2001.00001''],
       gsc_a_j = None\<rparr>,
      \<lparr>gs_gray = [lit ''A Author, B Author'',
          lit ''2021 IEEE/CVF Conference on Computer Vision and Pattern Recognition Workshops''],
       gsc_a_j = None\<rparr>]"

definition constructor_rows :: "pub list" where
  "constructor_rows =
     [\<lparr>gs_gray = [lit ''A Author, B Author'', lit ''constructor''], gsc_a_j = None\<rparr>]"

definition profile_url :: jstring where
  "profile_url = lit ''https://scholar.google.com/citations?user=abc123&hl=en''"

definition cvpr_row :: pub where
  "cvpr_row = \<lparr>gs_gray = [lit ''A Author, B Author'', lit ''Proceedings of CVPR, 2020''],
     gsc_a_j = None\<rparr>"

text \<open>
  The button of a profile page; a link of an inline SVG image with a click handler,
  whose \<open>href\<close> is an object; and a text of such an image with a click handler,
  which has no method \<open>click\<close>.
\<close>

definition show_more_button :: element where
  "show_more_button =
     \<lparr>tagName = lit ''BUTTON'', element_id = lit ''gsc_bpf_more'', classList = [],
      role = None, onclick = None, textContent = lit ''Show more'',
      offsetParent_null = False, disabled = False, href = NoHref,
      inside_title_cell = False, has_click = True\<rparr>"

definition svg_link :: element where
  "svg_link =
     \<lparr>tagName = lit ''a'', element_id = [], classList = [],
      role = None, onclick = Some (lit ''more()''), textContent = lit ''more'',
      offsetParent_null = False, disabled = False, href = HrefObject,
      inside_title_cell = False, has_click = False\<rparr>"

definition svg_text :: element where
  "svg_text =
     \<lparr>tagName = lit ''text'', element_id = [], classList = [],
      role = None, onclick = Some (lit ''more()''), textContent = lit ''more'',
      offsetParent_null = False, disabled = False, href = NoHref,
      inside_title_cell = False, has_click = False\<rparr>"

text \<open>
  Pages whose state is the number of their rows. On the first the button is always
  there and a click on it changes nothing; on the second a click adds twenty rows;
  the third has the link of the image and the fourth the text of the image in the
  place of the button; the fifth has no button at all.
\<close>

definition inert_page :: "nat dom" where
  "inert_page =
     \<lparr>location_href = (\<lambda>p. profile_url), rows = (\<lambda>p. replicate p cvpr_row),
      elements = (\<lambda>p. [show_more_button]), dispatch_click = (\<lambda>b p. p),
      setTimeout = (\<lambda>delay p. (p, 0))\<rparr>"

definition growing_page :: "nat dom" where
  "growing_page = inert_page\<lparr>dispatch_click := (\<lambda>b p. p + 20)\<rparr>"

definition svg_link_page :: "nat dom" where
  "svg_link_page = inert_page\<lparr>elements := (\<lambda>p. [svg_link])\<rparr>"

definition svg_text_page :: "nat dom" where
  "svg_text_page = inert_page\<lparr>elements := (\<lambda>p. [svg_text])\<rparr>"

definition plain_page :: "nat dom" where
  "plain_page = inert_page\<lparr>elements := (\<lambda>p. [])\<rparr>"

text \<open>The sum of the counts of a tally that are numbers.\<close>

definition numeric_total :: "tally \<Rightarrow> nat" where
  "numeric_total t = sum_list (map (\<lambda>e. case snd e of Num n \<Rightarrow> n | NaS \<Rightarrow> 0) t)"

section \<open>Evaluation\<close>

text \<open>
  The patterns with their literals turned into units, once, and the equations by which
  the simplifier runs the script on a given text: the argument of every call is
  evaluated before the call is unfolded, and only the branch taken is evaluated.
\<close>

lemmas pattern_notation =
  gaps.simps words_def list.map alts.simps seqs.simps L_def lit_def many1_def year_def

lemmas re_evals =
  re_ellipsis_def [unfolded pattern_notation, simplified]
  re_year_comma_def [unfolded pattern_notation, simplified]
  re_year_end_def [unfolded pattern_notation, simplified]
  re_year_start_def [unfolded pattern_notation, simplified]
  re_volume_def [unfolded pattern_notation, simplified]
  re_pages_def [unfolded pattern_notation, simplified]
  re_range_def [unfolded pattern_notation, simplified]
  re_proceedings_def [unfolded pattern_notation, simplified]
  re_workshop_def [unfolded pattern_notation, simplified]
  re_cvpr1_def [unfolded pattern_notation, simplified]
  re_cvpr2_def [unfolded pattern_notation, simplified]
  re_cvpr3_def [unfolded pattern_notation, simplified]
  re_cvpr4_def [unfolded pattern_notation, simplified]
  re_cvpr5_def [unfolded pattern_notation, simplified]
  re_cvpr6_def [unfolded pattern_notation, simplified]
  re_iccv1_def [unfolded pattern_notation, simplified]
  re_iccv2_def [unfolded pattern_notation, simplified]
  re_iccv3_def [unfolded pattern_notation, simplified]
  re_eccv1_def [unfolded pattern_notation, simplified]
  re_eccv2_def [unfolded pattern_notation, simplified]
  re_wacv_def [unfolded pattern_notation, simplified]
  re_bmvc_def [unfolded pattern_notation, simplified]
  re_accv_def [unfolded pattern_notation, simplified]
  re_neurips_def [unfolded pattern_notation, simplified]
  re_icml_def [unfolded pattern_notation, simplified]
  re_iclr_def [unfolded pattern_notation, simplified]
  re_aistats_def [unfolded pattern_notation, simplified]
  re_aaai_def [unfolded pattern_notation, simplified]
  re_ijcai_def [unfolded pattern_notation, simplified]
  re_uai_def [unfolded pattern_notation, simplified]
  re_acl_def [unfolded pattern_notation, simplified]
  re_not_acl_def [unfolded pattern_notation, simplified]
  re_naacl_def [unfolded pattern_notation, simplified]
  re_emnlp_def [unfolded pattern_notation, simplified]
  re_conll_def [unfolded pattern_notation, simplified]
  re_eacl_def [unfolded pattern_notation, simplified]
  re_coling_def [unfolded pattern_notation, simplified]
  re_kdd_def [unfolded pattern_notation, simplified]
  re_icdm_def [unfolded pattern_notation, simplified]
  re_www_def [unfolded pattern_notation, simplified]
  re_icra_def [unfolded pattern_notation, simplified]
  re_iros_def [unfolded pattern_notation, simplified]
  re_icassp_def [unfolded pattern_notation, simplified]
  re_icip_def [unfolded pattern_notation, simplified]
  re_miccai1_def [unfolded pattern_notation, simplified]
  re_miccai2_def [unfolded pattern_notation, simplified]
  re_miccai3_def [unfolded pattern_notation, simplified]
  re_ipmi_def [unfolded pattern_notation, simplified]
  re_siggraph_def [unfolded pattern_notation, simplified]
  re_vis_def [unfolded pattern_notation, simplified]
  re_tpami_def [unfolded pattern_notation, simplified]
  re_tip_def [unfolded pattern_notation, simplified]
  re_tnn_def [unfolded pattern_notation, simplified]
  re_tcyb_def [unfolded pattern_notation, simplified]
  re_tmm_def [unfolded pattern_notation, simplified]
  re_access_def [unfolded pattern_notation, simplified]
  re_ijcv_def [unfolded pattern_notation, simplified]
  re_jmlr_def [unfolded pattern_notation, simplified]
  re_mlj_def [unfolded pattern_notation, simplified]
  re_cviu_def [unfolded pattern_notation, simplified]
  re_pr_def [unfolded pattern_notation, simplified]
  re_media_def [unfolded pattern_notation, simplified]
  re_neurocomputing_def [unfolded pattern_notation, simplified]
  re_science_def [unfolded pattern_notation, simplified]
  re_natcomm_def [unfolded pattern_notation, simplified]
  re_natmi_def [unfolded pattern_notation, simplified]
  re_nature_def [unfolded pattern_notation, simplified]
  re_pnas_def [unfolded pattern_notation, simplified]
  re_arxiv_def [unfolded pattern_notation, simplified]
  re_biorxiv_def [unfolded pattern_notation, simplified]
  re_patent_def [unfolded pattern_notation, simplified]
  re_ssrn_def [unfolded pattern_notation, simplified]
  re_springer_def [unfolded pattern_notation, simplified]
  re_mitpress_def [unfolded pattern_notation, simplified]
  re_chi_def [unfolded pattern_notation, simplified]
  re_sigir_def [unfolded pattern_notation, simplified]
  re_interspeech_def [unfolded pattern_notation, simplified]
  re_isca_def [unfolded pattern_notation, simplified]
  re_ws_cvpr_def [unfolded pattern_notation, simplified]
  re_ws_iccv_def [unfolded pattern_notation, simplified]
  re_ws_eccv_def [unfolded pattern_notation, simplified]
  re_ws_neurips_def [unfolded pattern_notation, simplified]
  re_ws_icml_def [unfolded pattern_notation, simplified]
  re_ws_aaai_def [unfolded pattern_notation, simplified]
  re_ws_ijcai_def [unfolded pattern_notation, simplified]
  re_x_cvpr_def [unfolded pattern_notation, simplified]
  re_x_inst_def [unfolded pattern_notation, simplified]
  re_x_iccv_def [unfolded pattern_notation, simplified]
  re_x_pattern_def [unfolded pattern_notation, simplified]
  re_x_eccv_def [unfolded pattern_notation, simplified]
  re_x_miccai_def [unfolded pattern_notation, simplified]
  re_prefix_def [unfolded pattern_notation, simplified]
  re_suffix_def [unfolded pattern_notation, simplified]
  re_trailing_year_def [unfolded pattern_notation, simplified]
  re_trailing_number_def [unfolded pattern_notation, simplified]
  re_generic_def [unfolded pattern_notation, simplified]

lemma orElse_cong: "a = a' \<Longrightarrow> orElse a b = orElse a' b"
  by simp

lemma orElse_simps: "orElse None b = b" "orElse (Some x) b = Some x"
  by (simp_all add: orElse_def)

lemmas lit_ev =
  lit_def list.map of_char_Char horner_sum_simps of_bool_eq arith_simps more_arith_simps
  add_0 add_0_right mult_zero_right mult_1_right mult_1 numeral_plus_one one_plus_numeral
  one_add_one mult_numeral_1_right mult_2

lemma less_three: "(0::nat) < 3" "Suc 0 < 3" "Suc (Suc 0) < 3" "\<not> Suc (Suc (Suc n)) < 3"
  by simp_all

lemmas ev_engine =
  less_three
  includes_str.simps starts_with.simps rmatch.simps rmatches.simps exec.simps
  lit_match.simps star_greedy.simps star_lazy.simps test_def replace_def replace_i_def
  fold_case_def dot_def isDigit_def isWhiteSpace_def isWordChar_def digitOrDash_def
  isSeparator_def word_before_def word_after_def lower_unit_def toLowerCase.simps trim_def
  collapse_spaces.simps split_first_def list.map list.case option.case prod.case fst_conv
  snd_conv append.simps rev.simps dropWhile.simps takeWhile.simps take_Suc_Cons take_0
  drop_Suc_Cons drop_0 list.size diff_Suc_Suc diff_zero minus_nat.diff_0 diff_0_eq_0
  add_Suc add_Suc_right arith_simps rel_simps simp_thms if_True if_False option.distinct
  list.distinct option.inject list.inject Let_def

lemmas ev_norm =
  normalizeVenue_def classify_def rules_before_acl_def clean_def simplify_def
  fallback_def rules_vision_def rules_learning_def rules_ai_def rules_nlp_def
  rules_mining_def rules_robotics_def rules_signal_def rules_medical_def rules_graphics_def
  rules_transactions_def rules_journals_def rules_highimpact_def rules_preprints_def
  rules_publishers_def rules_additional_def workshop_detection_def rules_remaining_def
  rules_before_acl_def orElse_simps

lemmas ev_congs =
  if_weak_cong list.case_cong_weak option.case_cong_weak prod.case_cong_weak let_weak_cong
  orElse_cong

lemmas ev = lit_ev ev_norm ev_engine re_evals

section \<open>What the matcher accepts\<close>

lemma starts_with_iff: "starts_with w s \<longleftrightarrow> (\<exists>b. s = w @ b)"
proof (induction w s rule: starts_with.induct)
  case (3 p ps c cs)
  then show ?case by auto
qed auto

lemma includes_str_iff: "includes_str w s \<longleftrightarrow> (\<exists>a b. s = a @ w @ b)"
proof (induction s)
  case Nil
  then show ?case by auto
next
  case (Cons c cs)
  show ?case
  proof
    assume "includes_str w (c # cs)"
    then consider "starts_with w (c # cs)" | "includes_str w cs"
      by (auto split: if_splits)
    then show "\<exists>a b. c # cs = a @ w @ b"
    proof cases
      case 1
      then obtain b where "c # cs = w @ b" using starts_with_iff by blast
      then have "c # cs = [] @ w @ b" by simp
      then show ?thesis by blast
    next
      case 2
      then obtain a b where "cs = a @ w @ b" using Cons.IH by blast
      then have "c # cs = (c # a) @ w @ b" by simp
      then show ?thesis by blast
    qed
  next
    assume "\<exists>a b. c # cs = a @ w @ b"
    then obtain a b where ab: "c # cs = a @ w @ b" by blast
    show "includes_str w (c # cs)"
    proof (cases a)
      case Nil
      then have "starts_with w (c # cs)" using ab starts_with_iff by auto
      then show ?thesis by simp
    next
      case (Cons x xs)
      then have "cs = xs @ w @ b" using ab by simp
      then have "includes_str w cs" using Cons.IH by blast
      then show ?thesis by simp
    qed
  qed
qed

lemma lit_match_append: "lit_match w prev (w @ b) \<noteq> []"
  by (induction w arbitrary: prev) auto

lemma lit_match_iff: "lit_match w prev s \<noteq> [] \<longleftrightarrow> (\<exists>b. s = w @ b)"
proof (induction w prev s rule: lit_match.induct)
  case (3 p ps prev c cs)
  then show ?case by auto
qed auto

lemma exec_iff:
  "exec r prev s \<noteq> None \<longleftrightarrow> (\<exists>a b. s = a @ b \<and> rmatch r (before prev a, b) \<noteq> [])"
proof (induction s arbitrary: prev)
  case Nil
  then show ?case by (auto simp: before_def split: list.splits)
next
  case (Cons c cs)
  show ?case
  proof (cases "rmatch r (prev, c # cs)")
    case (Cons m ms)
    then have "rmatch r (before prev [], c # cs) \<noteq> []" by (simp add: before_def)
    then have "\<exists>a b. c # cs = a @ b \<and> rmatch r (before prev a, b) \<noteq> []"
      by (metis append_Nil)
    then show ?thesis using Cons by simp
  next
    case Nil
    have "exec r prev (c # cs) \<noteq> None \<longleftrightarrow> exec r (Some c) cs \<noteq> None"
      using Nil by (auto split: option.splits)
    also have "\<dots> \<longleftrightarrow> (\<exists>a b. cs = a @ b \<and> rmatch r (before (Some c) a, b) \<noteq> [])"
      using Cons.IH by blast
    also have "\<dots> \<longleftrightarrow> (\<exists>a b. c # cs = a @ b \<and> rmatch r (before prev a, b) \<noteq> [])"
    proof
      assume "\<exists>a b. cs = a @ b \<and> rmatch r (before (Some c) a, b) \<noteq> []"
      then obtain a b where ab: "cs = a @ b" "rmatch r (before (Some c) a, b) \<noteq> []" by blast
      have "before prev (c # a) = before (Some c) a" by (simp add: before_def)
      then have "c # cs = (c # a) @ b \<and> rmatch r (before prev (c # a), b) \<noteq> []"
        using ab by simp
      then show "\<exists>a b. c # cs = a @ b \<and> rmatch r (before prev a, b) \<noteq> []" by blast
    next
      assume "\<exists>a b. c # cs = a @ b \<and> rmatch r (before prev a, b) \<noteq> []"
      then obtain a b where ab: "c # cs = a @ b" "rmatch r (before prev a, b) \<noteq> []" by blast
      show "\<exists>a b. cs = a @ b \<and> rmatch r (before (Some c) a, b) \<noteq> []"
      proof (cases a)
        case Nil
        then show ?thesis using ab \<open>rmatch r (prev, c # cs) = []\<close> by (simp add: before_def)
      next
        case (Cons x xs)
        then have "cs = xs @ b" "before prev a = before (Some c) xs"
          using ab by (auto simp: before_def)
        then show ?thesis using ab by auto
      qed
    qed
    finally show ?thesis .
  qed
qed

lemma test_iff:
  "test r s \<longleftrightarrow> (\<exists>a b. map fold_case s = a @ b \<and> rmatch r (before None a, b) \<noteq> [])"
  unfolding test_def by (rule exec_iff)

lemma test_Alt: "test (Alt x y) s \<longleftrightarrow> test x s \<or> test y s"
  by (auto simp: test_iff)

lemma test_Lit: "test (Lit w) s \<longleftrightarrow> (\<exists>a b. map fold_case s = a @ w @ b)"
  unfolding test_iff rmatch.simps fst_conv snd_conv lit_match_iff by blast

lemma test_Lit_includes: "test (Lit w) s \<longleftrightarrow> includes_str w (map fold_case s)"
  by (simp add: test_Lit includes_str_iff)

section \<open>The labels of the rules\<close>

lemma lit_eq_iff: "lit a = lit b \<longleftrightarrow> a = b"
  by (simp add: lit_def inj_map_eq_map inj_of_char)

lemma orElse_SomeE:
  assumes "orElse a b = Some v"
  obtains "a = Some v" | "b = Some v"
  using assms by (cases a) (auto simp: orElse_def)

lemma rules_vision_range: "rules_vision l w = Some v \<Longrightarrow> v \<in> set canonical_labels"
  unfolding rules_vision_def canonical_labels_def by (simp split: if_splits)

lemma rules_learning_range: "rules_learning l w = Some v \<Longrightarrow> v \<in> set canonical_labels"
  unfolding rules_learning_def canonical_labels_def by (simp split: if_splits)

lemma rules_ai_range: "rules_ai l w = Some v \<Longrightarrow> v \<in> set canonical_labels"
  unfolding rules_ai_def canonical_labels_def by (simp split: if_splits)

lemma rules_nlp_range: "rules_nlp l w = Some v \<Longrightarrow> v \<in> set canonical_labels"
  unfolding rules_nlp_def canonical_labels_def by (simp split: if_splits)

lemma rules_mining_range: "rules_mining l w = Some v \<Longrightarrow> v \<in> set canonical_labels"
  unfolding rules_mining_def canonical_labels_def by (simp split: if_splits)

lemma rules_robotics_range: "rules_robotics l w = Some v \<Longrightarrow> v \<in> set canonical_labels"
  unfolding rules_robotics_def canonical_labels_def by (simp split: if_splits)

lemma rules_signal_range: "rules_signal l w = Some v \<Longrightarrow> v \<in> set canonical_labels"
  unfolding rules_signal_def canonical_labels_def by (simp split: if_splits)

lemma rules_medical_range: "rules_medical l w = Some v \<Longrightarrow> v \<in> set canonical_labels"
  unfolding rules_medical_def canonical_labels_def by (simp split: if_splits)

lemma rules_graphics_range: "rules_graphics l w = Some v \<Longrightarrow> v \<in> set canonical_labels"
  unfolding rules_graphics_def canonical_labels_def by (simp split: if_splits)

lemma rules_transactions_range: "rules_transactions l w = Some v \<Longrightarrow> v \<in> set canonical_labels"
  unfolding rules_transactions_def canonical_labels_def by (simp split: if_splits)

lemma rules_journals_range: "rules_journals l w = Some v \<Longrightarrow> v \<in> set canonical_labels"
  unfolding rules_journals_def canonical_labels_def by (simp split: if_splits)

lemma rules_highimpact_range: "rules_highimpact l w = Some v \<Longrightarrow> v \<in> set canonical_labels"
  unfolding rules_highimpact_def canonical_labels_def by (simp split: if_splits)

lemma rules_preprints_range: "rules_preprints l w = Some v \<Longrightarrow> v \<in> set canonical_labels"
  unfolding rules_preprints_def canonical_labels_def by (simp split: if_splits)

lemma rules_publishers_range: "rules_publishers l w = Some v \<Longrightarrow> v \<in> set canonical_labels"
  unfolding rules_publishers_def canonical_labels_def by (simp split: if_splits)

lemma rules_additional_range: "rules_additional l w = Some v \<Longrightarrow> v \<in> set canonical_labels"
  unfolding rules_additional_def canonical_labels_def by (simp split: if_splits)

lemma workshop_detection_range: "workshop_detection l w = Some v \<Longrightarrow> v \<in> set canonical_labels"
  unfolding workshop_detection_def canonical_labels_def by (simp split: if_splits)

lemma rules_remaining_range: "rules_remaining l w = Some v \<Longrightarrow> v \<in> set canonical_labels"
  unfolding rules_remaining_def canonical_labels_def by (simp split: if_splits)

lemmas rules_ranges =
  rules_vision_range rules_learning_range rules_ai_range rules_nlp_range rules_mining_range
  rules_robotics_range rules_signal_range rules_medical_range rules_graphics_range
  rules_transactions_range rules_journals_range rules_highimpact_range
  rules_preprints_range rules_publishers_range rules_additional_range
  workshop_detection_range rules_remaining_range

lemma classify_range: "classify l w = Some v \<Longrightarrow> v \<in> set canonical_labels"
  unfolding classify_def rules_before_acl_def
  by (elim orElse_SomeE) (erule rules_ranges)+

lemma canonical_labels_length: "v \<in> set canonical_labels \<Longrightarrow> 3 \<le> length v"
  unfolding canonical_labels_def by (auto simp: lit_def)

lemma fallback_length: "fallback x = Some v \<Longrightarrow> 3 \<le> length v"
  unfolding fallback_def by (simp add: Let_def split: if_splits)

text \<open>Every label of the rules is a fixed point of \<open>normalizeVenue\<close>.\<close>

lemma fixed_vision:
  "normalizeVenue (lit ''CVPR Workshop'') = Some (lit ''CVPR Workshop'')"
  "normalizeVenue (lit ''CVPR'') = Some (lit ''CVPR'')"
  "normalizeVenue (lit ''ICCV Workshop'') = Some (lit ''ICCV Workshop'')"
  "normalizeVenue (lit ''ICCV'') = Some (lit ''ICCV'')"
  "normalizeVenue (lit ''ECCV Workshop'') = Some (lit ''ECCV Workshop'')"
  "normalizeVenue (lit ''ECCV'') = Some (lit ''ECCV'')"
  "normalizeVenue (lit ''WACV Workshop'') = Some (lit ''WACV Workshop'')"
  "normalizeVenue (lit ''WACV'') = Some (lit ''WACV'')"
  "normalizeVenue (lit ''BMVC Workshop'') = Some (lit ''BMVC Workshop'')"
  "normalizeVenue (lit ''BMVC'') = Some (lit ''BMVC'')"
  "normalizeVenue (lit ''ACCV Workshop'') = Some (lit ''ACCV Workshop'')"
  "normalizeVenue (lit ''ACCV'') = Some (lit ''ACCV'')"
  by (simp only: ev cong: ev_congs)+

lemma fixed_learning:
  "normalizeVenue (lit ''NeurIPS Workshop'') = Some (lit ''NeurIPS Workshop'')"
  "normalizeVenue (lit ''NeurIPS'') = Some (lit ''NeurIPS'')"
  "normalizeVenue (lit ''ICML Workshop'') = Some (lit ''ICML Workshop'')"
  "normalizeVenue (lit ''ICML'') = Some (lit ''ICML'')"
  "normalizeVenue (lit ''ICLR Workshop'') = Some (lit ''ICLR Workshop'')"
  "normalizeVenue (lit ''ICLR'') = Some (lit ''ICLR'')"
  "normalizeVenue (lit ''AISTATS Workshop'') = Some (lit ''AISTATS Workshop'')"
  "normalizeVenue (lit ''AISTATS'') = Some (lit ''AISTATS'')"
  by (simp only: ev cong: ev_congs)+

lemma fixed_ai:
  "normalizeVenue (lit ''AAAI Workshop'') = Some (lit ''AAAI Workshop'')"
  "normalizeVenue (lit ''AAAI'') = Some (lit ''AAAI'')"
  "normalizeVenue (lit ''IJCAI Workshop'') = Some (lit ''IJCAI Workshop'')"
  "normalizeVenue (lit ''IJCAI'') = Some (lit ''IJCAI'')"
  "normalizeVenue (lit ''UAI Workshop'') = Some (lit ''UAI Workshop'')"
  "normalizeVenue (lit ''UAI'') = Some (lit ''UAI'')"
  by (simp only: ev cong: ev_congs)+

lemma fixed_nlp:
  "normalizeVenue (lit ''ACL Workshop'') = Some (lit ''ACL Workshop'')"
  "normalizeVenue (lit ''ACL'') = Some (lit ''ACL'')"
  "normalizeVenue (lit ''NAACL Workshop'') = Some (lit ''NAACL Workshop'')"
  "normalizeVenue (lit ''NAACL'') = Some (lit ''NAACL'')"
  "normalizeVenue (lit ''EMNLP Workshop'') = Some (lit ''EMNLP Workshop'')"
  "normalizeVenue (lit ''EMNLP'') = Some (lit ''EMNLP'')"
  "normalizeVenue (lit ''CoNLL Workshop'') = Some (lit ''CoNLL Workshop'')"
  "normalizeVenue (lit ''CoNLL'') = Some (lit ''CoNLL'')"
  "normalizeVenue (lit ''EACL Workshop'') = Some (lit ''EACL Workshop'')"
  "normalizeVenue (lit ''EACL'') = Some (lit ''EACL'')"
  "normalizeVenue (lit ''COLING Workshop'') = Some (lit ''COLING Workshop'')"
  "normalizeVenue (lit ''COLING'') = Some (lit ''COLING'')"
  by (simp only: ev cong: ev_congs)+

lemma fixed_mining:
  "normalizeVenue (lit ''KDD Workshop'') = Some (lit ''KDD Workshop'')"
  "normalizeVenue (lit ''ACM SIGKDD'') = Some (lit ''ACM SIGKDD'')"
  "normalizeVenue (lit ''ICDM Workshop'') = Some (lit ''ICDM Workshop'')"
  "normalizeVenue (lit ''ICDM'') = Some (lit ''ICDM'')"
  "normalizeVenue (lit ''WWW Workshop'') = Some (lit ''WWW Workshop'')"
  "normalizeVenue (lit ''WWW'') = Some (lit ''WWW'')"
  by (simp only: ev cong: ev_congs)+

lemma fixed_robotics:
  "normalizeVenue (lit ''ICRA Workshop'') = Some (lit ''ICRA Workshop'')"
  "normalizeVenue (lit ''ICRA'') = Some (lit ''ICRA'')"
  "normalizeVenue (lit ''IROS Workshop'') = Some (lit ''IROS Workshop'')"
  "normalizeVenue (lit ''IROS'') = Some (lit ''IROS'')"
  by (simp only: ev cong: ev_congs)+

lemma fixed_signal:
  "normalizeVenue (lit ''ICASSP Workshop'') = Some (lit ''ICASSP Workshop'')"
  "normalizeVenue (lit ''ICASSP'') = Some (lit ''ICASSP'')"
  "normalizeVenue (lit ''ICIP Workshop'') = Some (lit ''ICIP Workshop'')"
  "normalizeVenue (lit ''ICIP'') = Some (lit ''ICIP'')"
  by (simp only: ev cong: ev_congs)+

lemma fixed_medical:
  "normalizeVenue (lit ''MICCAI Workshop'') = Some (lit ''MICCAI Workshop'')"
  "normalizeVenue (lit ''MICCAI'') = Some (lit ''MICCAI'')"
  "normalizeVenue (lit ''IPMI Workshop'') = Some (lit ''IPMI Workshop'')"
  "normalizeVenue (lit ''IPMI'') = Some (lit ''IPMI'')"
  by (simp only: ev cong: ev_congs)+

lemma fixed_graphics:
  "normalizeVenue (lit ''SIGGRAPH Workshop'') = Some (lit ''SIGGRAPH Workshop'')"
  "normalizeVenue (lit ''SIGGRAPH'') = Some (lit ''SIGGRAPH'')"
  "normalizeVenue (lit ''IEEE VIS Workshop'') = Some (lit ''IEEE VIS Workshop'')"
  "normalizeVenue (lit ''IEEE VIS'') = Some (lit ''IEEE VIS'')"
  by (simp only: ev cong: ev_congs)+

lemma fixed_transactions:
  "normalizeVenue (lit ''IEEE TPAMI'') = Some (lit ''IEEE TPAMI'')"
  "normalizeVenue (lit ''IEEE TIP'') = Some (lit ''IEEE TIP'')"
  "normalizeVenue (lit ''IEEE TNN'') = Some (lit ''IEEE TNN'')"
  "normalizeVenue (lit ''IEEE TCYB'') = Some (lit ''IEEE TCYB'')"
  "normalizeVenue (lit ''IEEE TMM'') = Some (lit ''IEEE TMM'')"
  "normalizeVenue (lit ''IEEE Access'') = Some (lit ''IEEE Access'')"
  by (simp only: ev cong: ev_congs)+

lemma fixed_journals:
  "normalizeVenue (lit ''IJCV'') = Some (lit ''IJCV'')"
  "normalizeVenue (lit ''JMLR'') = Some (lit ''JMLR'')"
  "normalizeVenue (lit ''Machine Learning Journal'') = Some (lit ''Machine Learning Journal'')"
  "normalizeVenue (lit ''CVIU'') = Some (lit ''CVIU'')"
  "normalizeVenue (lit ''Pattern Recognition'') = Some (lit ''Pattern Recognition'')"
  "normalizeVenue (lit ''Medical Image Analysis'') = Some (lit ''Medical Image Analysis'')"
  "normalizeVenue (lit ''Neurocomputing'') = Some (lit ''Neurocomputing'')"
  by (simp only: ev cong: ev_congs)+

lemma fixed_highimpact:
  "normalizeVenue (lit ''Science'') = Some (lit ''Science'')"
  "normalizeVenue (lit ''Nature Communications'') = Some (lit ''Nature Communications'')"
  "normalizeVenue (lit ''Nature Machine Intelligence'') = Some (lit ''Nature Machine Intelligence'')"
  "normalizeVenue (lit ''Nature'') = Some (lit ''Nature'')"
  "normalizeVenue (lit ''PNAS'') = Some (lit ''PNAS'')"
  by (simp only: ev cong: ev_congs)+

lemma fixed_preprints:
  "normalizeVenue (lit ''arXiv'') = Some (lit ''arXiv'')"
  "normalizeVenue (lit ''bioRxiv'') = Some (lit ''bioRxiv'')"
  "normalizeVenue (lit ''US Patents'') = Some (lit ''US Patents'')"
  "normalizeVenue (lit ''Available at SSRN'') = Some (lit ''Available at SSRN'')"
  by (simp only: ev cong: ev_congs)+

lemma fixed_publishers:
  "normalizeVenue (lit ''Springer'') = Some (lit ''Springer'')"
  "normalizeVenue (lit ''MIT Press'') = Some (lit ''MIT Press'')"
  by (simp only: ev cong: ev_congs)+

lemma fixed_additional:
  "normalizeVenue (lit ''CHI Workshop'') = Some (lit ''CHI Workshop'')"
  "normalizeVenue (lit ''ACM CHI'') = Some (lit ''ACM CHI'')"
  "normalizeVenue (lit ''SIGIR Workshop'') = Some (lit ''SIGIR Workshop'')"
  "normalizeVenue (lit ''ACM SIGIR'') = Some (lit ''ACM SIGIR'')"
  "normalizeVenue (lit ''INTERSPEECH Workshop'') = Some (lit ''INTERSPEECH Workshop'')"
  "normalizeVenue (lit ''INTERSPEECH'') = Some (lit ''INTERSPEECH'')"
  "normalizeVenue (lit ''ISCA'') = Some (lit ''ISCA'')"
  by (simp only: ev cong: ev_congs)+

lemma fixed_generic:
  "normalizeVenue (lit ''Workshop'') = Some (lit ''Workshop'')"
  by (simp only: ev cong: ev_congs)+

lemmas fixed_labels =
  fixed_vision fixed_learning fixed_ai fixed_nlp fixed_mining fixed_robotics fixed_signal
  fixed_medical fixed_graphics fixed_transactions fixed_journals fixed_highimpact
  fixed_preprints fixed_publishers fixed_additional fixed_generic

lemma canonical_labels_fixed: "v \<in> set canonical_labels \<Longrightarrow> normalizeVenue v = Some v"
  unfolding canonical_labels_def using fixed_labels by auto

section \<open>The claims about normalizeVenue\<close>

text \<open>
  C1, as amended. Whenever \<open>normalizeVenue s\<close> is one of the fixed labels of the rules
  (every result of a rule or of the workshop detection is one, by
  \<open>classify_range\<close>), normalizing it again returns the same label.
\<close>

theorem normalize_fixes_canonical_labels:
  "normalizeVenue s = Some v \<and> v \<in> set canonical_labels \<longrightarrow> normalizeVenue v = Some v"
  using canonical_labels_fixed by blast

theorem normalize_fixes_canonical_labels_witness:
  "normalizeVenue (lit ''Proc. CVPR, 2020'') = Some (lit ''CVPR'') \<and>
   lit ''CVPR'' \<in> set canonical_labels \<and>
   normalizeVenue (lit ''CVPR'') = Some (lit ''CVPR'')"
proof -
  have h1: "normalizeVenue (lit ''Proc. CVPR, 2020'') = Some (lit ''CVPR'')"
    by (simp only: ev cong: ev_congs)
  have h2: "lit ''CVPR'' \<in> set canonical_labels"
    by (simp add: canonical_labels_def)
  show ?thesis
    using normalize_fixes_canonical_labels [of "lit ''Proc. CVPR, 2020''" "lit ''CVPR''"] h1 h2
    by simp
qed

text \<open>
  C1, as stated, fails on a label of the fallback: the fallback removes one leading
  \<open>The\<close> and returns a text of which the clean-up then removes the leading
  \<open>Proceedings of the\<close>.
\<close>

lemma royal_society_once:
  "normalizeVenue (lit ''The Proceedings of the Royal Society'') =
     Some (lit ''Proceedings of the Royal Society'')"
  by (simp only: ev cong: ev_congs)

lemma royal_society_twice:
  "normalizeVenue (lit ''Proceedings of the Royal Society'') = Some (lit ''Royal Society'')"
  by (simp only: ev cong: ev_congs)

theorem normalize_not_idempotent:
  "normalizeVenue (lit ''The Proceedings of the Royal Society'') =
     Some (lit ''Proceedings of the Royal Society'') \<and>
   normalizeVenue (lit ''Proceedings of the Royal Society'') \<noteq>
     Some (lit ''Proceedings of the Royal Society'')"
  using royal_society_once royal_society_twice by (simp add: lit_eq_iff)

text \<open>
  C10. A result of \<open>normalizeVenue\<close> that is not \<open>null\<close> has at least three units:
  it is a label of a rule, or the fallback has checked its length.
\<close>

theorem normalizeVenue_at_least_three: "normalizeVenue s = Some v \<Longrightarrow> 3 \<le> length v"
  unfolding normalizeVenue_def
  by (auto simp: Let_def split: if_splits elim!: orElse_SomeE
      dest: classify_range canonical_labels_length fallback_length)

theorem normalizeVenue_at_least_three_witness:
  "normalizeVenue (lit ''Kauai Journal, 12(3)'') = Some (lit ''UAI'') \<and> 3 \<le> length (lit ''UAI'')"
proof -
  have h: "normalizeVenue (lit ''Kauai Journal, 12(3)'') = Some (lit ''UAI'')"
    by (simp only: ev cong: ev_congs)
  show ?thesis using normalizeVenue_at_least_three [OF h] h by simp
qed

subsection \<open>The precedence of the rules\<close>

lemma includes_fold:
  assumes "includes_str w l" and "map fold_case w = w"
  shows "includes_str w (map fold_case l)"
proof -
  from assms(1) obtain a b where "l = a @ w @ b" using includes_str_iff by blast
  then have "map fold_case l = map fold_case a @ w @ map fold_case b"
    using assms(2) by simp
  then show ?thesis using includes_str_iff by blast
qed

lemma naacl_folded: "map fold_case (lit ''naacl'') = lit ''naacl''"
  by (simp add: lit_def fold_case_def)

lemma naacl_tests:
  assumes "includes_str (lit ''naacl'') l"
  shows "test re_not_acl l" and "test re_naacl l"
proof -
  have "includes_str (lit ''naacl'') (map fold_case l)"
    using assms naacl_folded by (rule includes_fold)
  then have "test (L ''naacl'') l" by (simp add: L_def test_Lit_includes)
  then show "test re_not_acl l" and "test re_naacl l"
    by (simp_all add: re_not_acl_def re_naacl_def words_def test_Alt)
qed

lemma rules_nlp_naacl:
  assumes "includes_str (lit ''naacl'') l"
  shows "rules_nlp l w = Some (if w then lit ''NAACL Workshop'' else lit ''NAACL'')"
  using naacl_tests [OF assms] by (simp add: rules_nlp_def)

lemma rules_before_acl_labels:
  assumes "rules_before_acl l w = Some v"
  shows "v \<in> lit ` {''CVPR Workshop'', ''CVPR'', ''ICCV Workshop'', ''ICCV'', ''ECCV Workshop'',
     ''ECCV'', ''WACV Workshop'', ''WACV'', ''BMVC Workshop'', ''BMVC'', ''ACCV Workshop'', ''ACCV'',
     ''NeurIPS Workshop'', ''NeurIPS'', ''ICML Workshop'', ''ICML'', ''ICLR Workshop'', ''ICLR'',
     ''AISTATS Workshop'', ''AISTATS'', ''AAAI Workshop'', ''AAAI'', ''IJCAI Workshop'', ''IJCAI'',
     ''UAI Workshop'', ''UAI''}"
  using assms unfolding rules_before_acl_def
  apply (elim orElse_SomeE)
  subgoal unfolding rules_vision_def by (simp split: if_splits)
  subgoal unfolding rules_learning_def by (simp split: if_splits)
  subgoal unfolding rules_ai_def by (simp split: if_splits)
  done

lemma rules_before_acl_not_acl:
  assumes "rules_before_acl l w = Some v"
  shows "v \<noteq> lit ''ACL''" and "v \<noteq> lit ''ACL Workshop''"
  using rules_before_acl_labels [OF assms] by (auto simp: lit_eq_iff)

lemma normalize_naacl:
  assumes "s \<noteq> []" and "includes_str (lit ''naacl'') (toLowerCase (clean s))"
  shows "normalizeVenue s =
     orElse (rules_before_acl (toLowerCase (clean s)) (test re_workshop (clean s)))
       (Some (if test re_workshop (clean s) then lit ''NAACL Workshop'' else lit ''NAACL''))"
proof -
  let ?l = "toLowerCase (clean s)" and ?w = "test re_workshop (clean s)"
  have nlp: "rules_nlp ?l ?w = Some (if ?w then lit ''NAACL Workshop'' else lit ''NAACL'')"
    using assms(2) by (rule rules_nlp_naacl)
  show ?thesis
    using assms(1) nlp
    by (cases "rules_before_acl ?l ?w")
       (simp_all add: normalizeVenue_def classify_def orElse_def Let_def)
qed

text \<open>
  What the guard of the rule of ACL does: a text whose lower-cased cleaned form
  contains \<open>naacl\<close> is never classified as ACL; it is classified as NAACL unless
  one of the rules that stand before the rule of ACL matches.
\<close>

lemma naacl_guard:
  "s \<noteq> [] \<and> includes_str (lit ''naacl'') (toLowerCase (clean s)) \<longrightarrow>
     normalizeVenue s \<noteq> Some (lit ''ACL'') \<and>
     normalizeVenue s \<noteq> Some (lit ''ACL Workshop'') \<and>
     (rules_before_acl (toLowerCase (clean s)) (test re_workshop (clean s)) = None \<longrightarrow>
        normalizeVenue s =
          Some (if test re_workshop (clean s) then lit ''NAACL Workshop'' else lit ''NAACL''))"
proof (intro impI, elim conjE)
  let ?l = "toLowerCase (clean s)" and ?w = "test re_workshop (clean s)"
  assume a: "s \<noteq> []" "includes_str (lit ''naacl'') ?l"
  note norm = normalize_naacl [OF a]
  have ne: "lit ''NAACL Workshop'' \<noteq> lit ''ACL''" "lit ''NAACL'' \<noteq> lit ''ACL''"
    "lit ''NAACL Workshop'' \<noteq> lit ''ACL Workshop''" "lit ''NAACL'' \<noteq> lit ''ACL Workshop''"
    by (simp_all add: lit_eq_iff)
  have "normalizeVenue s \<noteq> Some (lit ''ACL'')"
    using norm ne rules_before_acl_not_acl(1) [of ?l ?w]
    by (cases "rules_before_acl ?l ?w") (auto simp: orElse_def)
  moreover have "normalizeVenue s \<noteq> Some (lit ''ACL Workshop'')"
    using norm ne rules_before_acl_not_acl(2) [of ?l ?w]
    by (cases "rules_before_acl ?l ?w") (auto simp: orElse_def)
  moreover have "normalizeVenue s = Some (if ?w then lit ''NAACL Workshop'' else lit ''NAACL'')"
    if "rules_before_acl ?l ?w = None"
    using norm that by (simp add: orElse_def)
  ultimately show "normalizeVenue s \<noteq> Some (lit ''ACL'') \<and>
     normalizeVenue s \<noteq> Some (lit ''ACL Workshop'') \<and>
     (rules_before_acl ?l ?w = None \<longrightarrow>
        normalizeVenue s = Some (if ?w then lit ''NAACL Workshop'' else lit ''NAACL''))"
    by blast
qed

lemma naacl_hlt_label:
  "normalizeVenue (lit ''Proceedings of NAACL-HLT, 2019'') = Some (lit ''NAACL'')"
  by (simp only: ev cong: ev_congs)

text \<open>
  The first match wins: a text with \<open>naacl\<close>, matched by the patterns of ACL and of
  NAACL, is classified by the rule of ICML, which stands before them.
\<close>

lemma icml_before_naacl:
  "includes_str (lit ''naacl'') (toLowerCase (clean (lit ''ICML Workshop at NAACL''))) \<and>
   test re_acl (toLowerCase (clean (lit ''ICML Workshop at NAACL''))) \<and>
   test re_naacl (toLowerCase (clean (lit ''ICML Workshop at NAACL''))) \<and>
   normalizeVenue (lit ''ICML Workshop at NAACL'') = Some (lit ''ICML Workshop'')"
proof -
  have c: "clean (lit ''ICML Workshop at NAACL'') = lit ''ICML Workshop at NAACL''"
    by (simp only: ev cong: ev_congs)
  have h1: "includes_str (lit ''naacl'') (toLowerCase (lit ''ICML Workshop at NAACL''))"
    by (simp only: ev cong: ev_congs)
  have h2: "test re_acl (toLowerCase (lit ''ICML Workshop at NAACL''))"
    by (simp only: ev cong: ev_congs)
  have h3: "test re_naacl (toLowerCase (lit ''ICML Workshop at NAACL''))"
    by (simp only: ev cong: ev_congs)
  have h4: "normalizeVenue (lit ''ICML Workshop at NAACL'') = Some (lit ''ICML Workshop'')"
    by (simp only: ev cong: ev_congs)
  show ?thesis using h1 h2 h3 h4 by (simp add: c)
qed

lemma naacl_proceedings_clean:
  "clean naacl_proceedings =
     lit ''North American Chapter of the Association for Computational Linguistics''"
  unfolding naacl_proceedings_def by (simp only: ev append.simps cong: ev_congs)

lemma naacl_proceedings_acl:
  "test re_acl (toLowerCase
     (lit ''North American Chapter of the Association for Computational Linguistics''))"
  by (simp only: ev cong: ev_congs)

lemma naacl_proceedings_naacl:
  "test re_naacl (toLowerCase
     (lit ''North American Chapter of the Association for Computational Linguistics''))"
  by (simp only: ev cong: ev_congs)

lemma naacl_proceedings_label: "normalizeVenue naacl_proceedings = Some (lit ''ACL'')"
  unfolding naacl_proceedings_def by (simp only: ev append.simps cong: ev_congs)

text \<open>
  C4. The proceedings of NAACL, listed under the name of the chapter, match the
  pattern of ACL and the pattern of NAACL, and are classified as \<open>ACL\<close>: the rule
  of ACL is guarded against the substrings \<open>naacl\<close> and \<open>eacl\<close> only, whereas the
  pattern of the rule of NAACL, which follows it, has the alternative
  \<open>north american chapter\<close>.
\<close>

theorem naacl_proceedings_classified_acl:
  "test re_acl (toLowerCase (clean naacl_proceedings)) \<and>
   test re_naacl (toLowerCase (clean naacl_proceedings)) \<and>
   normalizeVenue naacl_proceedings = Some (lit ''ACL'')"
  using naacl_proceedings_acl naacl_proceedings_naacl naacl_proceedings_label
  by (simp add: naacl_proceedings_clean)

subsection \<open>The workshop flag\<close>

lemma lit_match_eq:
  "lit_match (p # ps) prev s =
     (if \<exists>b. s = (p # ps) @ b then [(Some (last (p # ps)), drop (length (p # ps)) s)] else [])"
proof (induction ps arbitrary: p prev s)
  case Nil
  then show ?case by (cases s) auto
next
  case (Cons q qs)
  show ?case
  proof (cases s)
    case Nil
    then show ?thesis by simp
  next
    case (Cons c cs)
    then show ?thesis using Cons.IH [of q "Some c" cs] by auto
  qed
qed

lemma test_ws_boundary:
  "test (Seq (Lit [119, 115]) WordB) v \<longleftrightarrow>
     (\<exists>a b. map fold_case v = a @ [119, 115] @ b \<and> \<not> word_after b)"
proof -
  have m: "rmatch (Seq (Lit [119, 115]) WordB) (prev, x) \<noteq> [] \<longleftrightarrow>
      (\<exists>b. x = [119, 115] @ b \<and> \<not> word_after b)" for prev x
  proof (cases "\<exists>b. x = [119, 115] @ b")
    case True
    then obtain b where b: "x = [119, 115] @ b" by blast
    have "lit_match [119, 115] prev x = [(Some 115, b)]"
      unfolding lit_match_eq using b by simp
    then show ?thesis using b by (simp add: word_before_def isWordChar_def)
  next
    case False
    then have "lit_match [119, 115] prev x = []" unfolding lit_match_eq by simp
    then show ?thesis using False by simp
  qed
  show ?thesis unfolding test_iff m by (metis append.assoc)
qed

lemmas re_workshop_eval = re_workshop_def [unfolded pattern_notation, simplified]

text \<open>
  The flag of the source: the text contains \<open>workshop\<close>, or it contains \<open>ws\<close> with
  no word character behind it; whatever stands before \<open>ws\<close> does not matter.
\<close>

lemma workshop_flag:
  "test re_workshop v \<longleftrightarrow>
     includes_str (lit ''workshop'') (map fold_case v) \<or>
     (\<exists>a b. map fold_case v = a @ lit ''ws'' @ b \<and> \<not> word_after b)"
proof -
  have "lit ''ws'' = [119, 115]" by (simp add: lit_def)
  moreover have "test re_workshop v \<longleftrightarrow>
      test (Lit (lit ''workshop'')) v \<or> test (Seq (Lit [119, 115]) WordB) v"
    unfolding re_workshop_eval test_Alt by (simp add: lit_def)
  ultimately show ?thesis by (simp add: test_Lit_includes test_ws_boundary)
qed

text \<open>
  Under the flag a rule returns the workshop label of the label that it returns
  without the flag; the rules without a workshop variant return the same label.
\<close>

lemma lit_append: "lit a @ lit b = lit (a @ b)"
  by (simp add: lit_def)

lemmas label_ev = workshop_label_def workshop_capable_def lit_eq_iff lit_append

lemma vision_flag:
  "rules_vision l w = map_option (\<lambda>b. if w then workshop_label b else b) (rules_vision l False)"
  unfolding rules_vision_def by (simp add: label_ev)

lemma learning_flag:
  "rules_learning l w =
     map_option (\<lambda>b. if w then workshop_label b else b) (rules_learning l False)"
  unfolding rules_learning_def by (simp add: label_ev)

lemma ai_flag:
  "rules_ai l w = map_option (\<lambda>b. if w then workshop_label b else b) (rules_ai l False)"
  unfolding rules_ai_def by (simp add: label_ev)

lemma nlp_flag:
  "rules_nlp l w = map_option (\<lambda>b. if w then workshop_label b else b) (rules_nlp l False)"
  unfolding rules_nlp_def by (simp add: label_ev)

lemma mining_flag:
  "rules_mining l w = map_option (\<lambda>b. if w then workshop_label b else b) (rules_mining l False)"
  unfolding rules_mining_def by (simp add: label_ev)

lemma robotics_flag:
  "rules_robotics l w =
     map_option (\<lambda>b. if w then workshop_label b else b) (rules_robotics l False)"
  unfolding rules_robotics_def by (simp add: label_ev)

lemma signal_flag:
  "rules_signal l w = map_option (\<lambda>b. if w then workshop_label b else b) (rules_signal l False)"
  unfolding rules_signal_def by (simp add: label_ev)

lemma medical_flag:
  "rules_medical l w =
     map_option (\<lambda>b. if w then workshop_label b else b) (rules_medical l False)"
  unfolding rules_medical_def by (simp add: label_ev)

lemma graphics_flag:
  "rules_graphics l w =
     map_option (\<lambda>b. if w then workshop_label b else b) (rules_graphics l False)"
  unfolding rules_graphics_def by (simp add: label_ev)

lemma transactions_flag:
  "rules_transactions l w =
     map_option (\<lambda>b. if w then workshop_label b else b) (rules_transactions l False)"
  unfolding rules_transactions_def by (simp add: label_ev)

lemma journals_flag:
  "rules_journals l w =
     map_option (\<lambda>b. if w then workshop_label b else b) (rules_journals l False)"
  unfolding rules_journals_def by (simp add: label_ev)

lemma highimpact_flag:
  "rules_highimpact l w =
     map_option (\<lambda>b. if w then workshop_label b else b) (rules_highimpact l False)"
  unfolding rules_highimpact_def by (simp add: label_ev)

lemma preprints_flag:
  "rules_preprints l w =
     map_option (\<lambda>b. if w then workshop_label b else b) (rules_preprints l False)"
  unfolding rules_preprints_def by (simp add: label_ev)

lemma publishers_flag:
  "rules_publishers l w =
     map_option (\<lambda>b. if w then workshop_label b else b) (rules_publishers l False)"
  unfolding rules_publishers_def by (simp add: label_ev)

lemma additional_flag:
  "rules_additional l w =
     map_option (\<lambda>b. if w then workshop_label b else b) (rules_additional l False)"
  unfolding rules_additional_def by (simp add: label_ev)

lemma orElse_flag:
  assumes "a = map_option f a'" and "b = map_option f b'"
  shows "orElse a b = map_option f (orElse a' b')"
  using assms by (cases a') (simp_all add: orElse_def)

lemma primary_rules_flag:
  "primary_rules l w =
     map_option (\<lambda>b. if w then workshop_label b else b) (primary_rules l False)"
  unfolding primary_rules_def rules_before_acl_def
  by (intro orElse_flag vision_flag learning_flag ai_flag nlp_flag mining_flag robotics_flag
      signal_flag medical_flag graphics_flag transactions_flag journals_flag highimpact_flag
      preprints_flag publishers_flag additional_flag)

lemma orElse_assoc: "orElse (orElse a b) c = orElse a (orElse b c)"
  by (cases a) (simp_all add: orElse_def)

lemma classify_primary:
  "classify l w =
     orElse (primary_rules l w) (orElse (workshop_detection l w) (rules_remaining l w))"
  unfolding classify_def primary_rules_def by (simp add: orElse_assoc)

lemma normalize_primary:
  assumes "s \<noteq> []" and "primary_rules (toLowerCase (clean s)) False = Some base"
  shows "normalizeVenue s =
     Some (if test re_workshop (clean s) then workshop_label base else base)"
proof -
  have "primary_rules (toLowerCase (clean s)) (test re_workshop (clean s)) =
      Some (if test re_workshop (clean s) then workshop_label base else base)"
    using assms(2) primary_rules_flag [of "toLowerCase (clean s)" "test re_workshop (clean s)"]
    by simp
  then show ?thesis
    using assms(1) by (simp add: normalizeVenue_def Let_def classify_primary orElse_def)
qed

lemma normalize_detection:
  assumes "s \<noteq> []" and "primary_rules (toLowerCase (clean s)) False = None"
    and "test re_workshop (clean s)"
  shows "normalizeVenue s = workshop_detection (toLowerCase (clean s)) True"
proof -
  have "primary_rules (toLowerCase (clean s)) True = None"
    using assms(2) primary_rules_flag [of "toLowerCase (clean s)" True] by simp
  moreover have "\<exists>v. workshop_detection (toLowerCase (clean s)) True = Some v"
    by (simp add: workshop_detection_def)
  ultimately show ?thesis
    using assms(1,3) by (auto simp: normalizeVenue_def Let_def classify_primary orElse_def)
qed

lemma normalize_remaining:
  assumes "s \<noteq> []" and "primary_rules (toLowerCase (clean s)) False = None"
    and "\<not> test re_workshop (clean s)"
    and "rules_remaining (toLowerCase (clean s)) False = Some base"
  shows "normalizeVenue s = Some base"
  using assms
  by (simp add: normalizeVenue_def Let_def classify_primary orElse_def workshop_detection_def)

lemma cvpr_primary:
  assumes "test re_cvpr1 l \<or> test re_cvpr2 l \<or> test re_cvpr3 l \<or> test re_cvpr4 l \<or>
     test re_cvpr5 l \<or> test re_cvpr6 l"
  shows "primary_rules l False = Some (lit ''CVPR'')"
  using assms by (simp add: primary_rules_def rules_before_acl_def rules_vision_def orElse_def)

lemma cvpr_workshop_label: "workshop_label (lit ''CVPR'') = lit ''CVPR Workshop''"
  by (simp add: label_ev)

text \<open>
  C5, as amended. For a text that is not empty, the flag being that the cleaned
  text contains, letter case ignored, \<open>workshop\<close>, or \<open>ws\<close> with the end of the text
  or a character that is not a word character behind it: when the lower-cased cleaned
  text matches one of the patterns of the rule of CVPR, the result is
  \<open>CVPR Workshop\<close> under the flag and \<open>CVPR\<close> otherwise; when the first of the rules
  before the generic workshop handling that matches it has the label \<open>base\<close>, the
  result is the workshop label of \<open>base\<close> under the flag and \<open>base\<close> otherwise, the
  workshop label being \<open>base\<close> followed by \<open>Workshop\<close> except for \<open>ACM SIGKDD\<close>,
  \<open>ACM CHI\<close> and \<open>ACM SIGIR\<close>, which become \<open>KDD Workshop\<close>, \<open>CHI Workshop\<close> and
  \<open>SIGIR Workshop\<close>, and \<open>base\<close> itself for a rule without a workshop variant; and
  when none of these rules matches, the generic workshop handling decides under the
  flag, so that the four rules that stand behind it never see the flag set and return
  their label without \<open>Workshop\<close>.
\<close>

theorem workshop_tagging:
  "s \<noteq> [] \<longrightarrow>
     (test re_cvpr1 (toLowerCase (clean s)) \<or> test re_cvpr2 (toLowerCase (clean s)) \<or>
      test re_cvpr3 (toLowerCase (clean s)) \<or> test re_cvpr4 (toLowerCase (clean s)) \<or>
      test re_cvpr5 (toLowerCase (clean s)) \<or> test re_cvpr6 (toLowerCase (clean s)) \<longrightarrow>
      normalizeVenue s =
        Some (if includes_str (lit ''workshop'') (map fold_case (clean s)) \<or>
                 (\<exists>a b. map fold_case (clean s) = a @ lit ''ws'' @ b \<and> \<not> word_after b)
              then lit ''CVPR Workshop'' else lit ''CVPR'')) \<and>
     (\<forall>base. primary_rules (toLowerCase (clean s)) False = Some base \<longrightarrow>
        normalizeVenue s =
          Some (if includes_str (lit ''workshop'') (map fold_case (clean s)) \<or>
                   (\<exists>a b. map fold_case (clean s) = a @ lit ''ws'' @ b \<and> \<not> word_after b)
                then workshop_label base else base)) \<and>
     (primary_rules (toLowerCase (clean s)) False = None \<and>
      (includes_str (lit ''workshop'') (map fold_case (clean s)) \<or>
       (\<exists>a b. map fold_case (clean s) = a @ lit ''ws'' @ b \<and> \<not> word_after b)) \<longrightarrow>
        normalizeVenue s = workshop_detection (toLowerCase (clean s)) True) \<and>
     (\<forall>base. primary_rules (toLowerCase (clean s)) False = None \<and>
        \<not> (includes_str (lit ''workshop'') (map fold_case (clean s)) \<or>
           (\<exists>a b. map fold_case (clean s) = a @ lit ''ws'' @ b \<and> \<not> word_after b)) \<and>
        rules_remaining (toLowerCase (clean s)) False = Some base \<longrightarrow>
        normalizeVenue s = Some base)"
proof (intro impI conjI allI)
  assume ne: "s \<noteq> []"
    and m: "test re_cvpr1 (toLowerCase (clean s)) \<or> test re_cvpr2 (toLowerCase (clean s)) \<or>
      test re_cvpr3 (toLowerCase (clean s)) \<or> test re_cvpr4 (toLowerCase (clean s)) \<or>
      test re_cvpr5 (toLowerCase (clean s)) \<or> test re_cvpr6 (toLowerCase (clean s))"
  have "normalizeVenue s =
      Some (if test re_workshop (clean s) then lit ''CVPR Workshop'' else lit ''CVPR'')"
    using normalize_primary [OF ne cvpr_primary [OF m]] by (simp add: cvpr_workshop_label)
  then show "normalizeVenue s =
      Some (if includes_str (lit ''workshop'') (map fold_case (clean s)) \<or>
               (\<exists>a b. map fold_case (clean s) = a @ lit ''ws'' @ b \<and> \<not> word_after b)
            then lit ''CVPR Workshop'' else lit ''CVPR'')"
    unfolding workshop_flag .
next
  fix base
  assume ne: "s \<noteq> []"
    and "primary_rules (toLowerCase (clean s)) False = Some base"
  from normalize_primary [OF this]
  show "normalizeVenue s =
        Some (if includes_str (lit ''workshop'') (map fold_case (clean s)) \<or>
                 (\<exists>a b. map fold_case (clean s) = a @ lit ''ws'' @ b \<and> \<not> word_after b)
              then workshop_label base else base)"
    unfolding workshop_flag .
next
  assume ne: "s \<noteq> []"
    and "primary_rules (toLowerCase (clean s)) False = None \<and>
      (includes_str (lit ''workshop'') (map fold_case (clean s)) \<or>
       (\<exists>a b. map fold_case (clean s) = a @ lit ''ws'' @ b \<and> \<not> word_after b))"
  then have "primary_rules (toLowerCase (clean s)) False = None" "test re_workshop (clean s)"
    unfolding workshop_flag by simp_all
  with ne show "normalizeVenue s = workshop_detection (toLowerCase (clean s)) True"
    by (rule normalize_detection)
next
  fix base
  assume ne: "s \<noteq> []"
    and "primary_rules (toLowerCase (clean s)) False = None \<and>
        \<not> (includes_str (lit ''workshop'') (map fold_case (clean s)) \<or>
           (\<exists>a b. map fold_case (clean s) = a @ lit ''ws'' @ b \<and> \<not> word_after b)) \<and>
        rules_remaining (toLowerCase (clean s)) False = Some base"
  then have "primary_rules (toLowerCase (clean s)) False = None"
    "\<not> test re_workshop (clean s)"
    "rules_remaining (toLowerCase (clean s)) False = Some base"
    unfolding workshop_flag by simp_all
  with ne show "normalizeVenue s = Some base"
    by (rule normalize_remaining)
qed

theorem workshop_tagging_witness:
  "lit ''IEEE CVPR Workshops, 2020'' \<noteq> [] \<and>
   test re_cvpr1 (toLowerCase (clean (lit ''IEEE CVPR Workshops, 2020''))) \<and>
   primary_rules (toLowerCase (clean (lit ''IEEE CVPR Workshops, 2020''))) False =
     Some (lit ''CVPR'') \<and>
   includes_str (lit ''workshop'') (map fold_case (clean (lit ''IEEE CVPR Workshops, 2020''))) \<and>
   normalizeVenue (lit ''IEEE CVPR Workshops, 2020'') = Some (lit ''CVPR Workshop'') \<and>
   primary_rules (toLowerCase (clean (lit ''European Symposium on Computer Vision Workshop'')))
     False = None \<and>
   includes_str (lit ''workshop'')
     (map fold_case (clean (lit ''European Symposium on Computer Vision Workshop''))) \<and>
   normalizeVenue (lit ''European Symposium on Computer Vision Workshop'') =
     Some (lit ''Workshop'') \<and>
   primary_rules (toLowerCase (clean (lit ''European Symposium on Computer Vision''))) False =
     None \<and>
   \<not> test re_workshop (clean (lit ''European Symposium on Computer Vision'')) \<and>
   rules_remaining (toLowerCase (clean (lit ''European Symposium on Computer Vision''))) False =
     Some (lit ''ECCV'') \<and>
   normalizeVenue (lit ''European Symposium on Computer Vision'') = Some (lit ''ECCV'')"
proof -
  have c: "clean (lit ''IEEE CVPR Workshops, 2020'') = lit ''IEEE CVPR Workshops''"
    by (simp only: ev cong: ev_congs)
  have h1: "lit ''IEEE CVPR Workshops, 2020'' \<noteq> []"
    by (simp add: lit_def)
  have h2: "test re_cvpr1 (toLowerCase (lit ''IEEE CVPR Workshops''))"
    by (simp only: ev cong: ev_congs)
  have h3: "includes_str (lit ''workshop'') (map fold_case (lit ''IEEE CVPR Workshops''))"
    by (simp only: ev cong: ev_congs)
  have h4: "primary_rules (toLowerCase (lit ''IEEE CVPR Workshops'')) False = Some (lit ''CVPR'')"
    using h2 by (simp add: cvpr_primary)
  have c': "clean (lit ''European Symposium on Computer Vision Workshop'') =
      lit ''European Symposium on Computer Vision Workshop''"
    by (simp only: ev cong: ev_congs)
  have g1: "lit ''European Symposium on Computer Vision Workshop'' \<noteq> []"
    by (simp add: lit_def)
  have g2: "primary_rules (toLowerCase (lit ''European Symposium on Computer Vision Workshop''))
      False = None"
    unfolding primary_rules_def by (simp only: ev cong: ev_congs)
  have g3: "includes_str (lit ''workshop'')
      (map fold_case (lit ''European Symposium on Computer Vision Workshop''))"
    by (simp only: ev cong: ev_congs)
  have g4: "workshop_detection
      (toLowerCase (lit ''European Symposium on Computer Vision Workshop'')) True =
      Some (lit ''Workshop'')"
    by (simp only: ev cong: ev_congs)
  have c'': "clean (lit ''European Symposium on Computer Vision'') =
      lit ''European Symposium on Computer Vision''"
    by (simp only: ev cong: ev_congs)
  have e1: "lit ''European Symposium on Computer Vision'' \<noteq> []"
    by (simp add: lit_def)
  have e2: "primary_rules (toLowerCase (lit ''European Symposium on Computer Vision'')) False =
      None"
    unfolding primary_rules_def by (simp only: ev cong: ev_congs)
  have e3: "\<not> test re_workshop (lit ''European Symposium on Computer Vision'')"
    by (simp only: ev cong: ev_congs)
  have e4: "rules_remaining (toLowerCase (lit ''European Symposium on Computer Vision'')) False =
      Some (lit ''ECCV'')"
    by (simp only: ev cong: ev_congs)
  note e3' = e3 [unfolded workshop_flag]
  show ?thesis
    using workshop_tagging [of "lit ''IEEE CVPR Workshops, 2020''"]
      workshop_tagging [of "lit ''European Symposium on Computer Vision Workshop''"]
      workshop_tagging [of "lit ''European Symposium on Computer Vision''"]
      h1 h2 h3 h4 g1 g2 g3 g4 e1 e2 e3 e3' e4
    by (simp add: c c' c'')
qed

text \<open>
  C5, as stated, fails on a word that ends in \<open>ws\<close>: the text matches the pattern of
  CVPR, contains neither \<open>workshop\<close> nor a word \<open>ws\<close>, and is tagged as a workshop.
  It also fails on the label of the rule of KDD, which is \<open>ACM SIGKDD\<close> without the
  flag and \<open>KDD Workshop\<close> under it.
\<close>

theorem workshop_tagging_counterexample:
  "test re_cvpr1 (toLowerCase (clean (lit ''CVPR News''))) \<and>
   \<not> spec_isWorkshop (clean (lit ''CVPR News'')) \<and>
   normalizeVenue (lit ''CVPR News'') = Some (lit ''CVPR Workshop'') \<and>
   normalizeVenue (lit ''ACM SIGKDD'') = Some (lit ''ACM SIGKDD'') \<and>
   spec_isWorkshop (clean (lit ''ACM SIGKDD Workshop'')) \<and>
   normalizeVenue (lit ''ACM SIGKDD Workshop'') = Some (lit ''KDD Workshop'') \<and>
   lit ''KDD Workshop'' \<noteq> lit ''ACM SIGKDD'' @ lit '' Workshop''"
proof -
  have c: "clean (lit ''CVPR News'') = lit ''CVPR News''"
    by (simp only: ev cong: ev_congs)
  have a: "test re_cvpr1 (toLowerCase (lit ''CVPR News''))"
    by (simp only: ev cong: ev_congs)
  have b: "\<not> spec_isWorkshop (lit ''CVPR News'')"
    by (simp add: spec_isWorkshop_def lit_def fold_case_def isWordChar_def)
  have n: "normalizeVenue (lit ''CVPR News'') = Some (lit ''CVPR Workshop'')"
    by (simp only: ev cong: ev_congs)
  have k1: "normalizeVenue (lit ''ACM SIGKDD'') = Some (lit ''ACM SIGKDD'')"
    by (simp only: ev cong: ev_congs)
  have c': "clean (lit ''ACM SIGKDD Workshop'') = lit ''ACM SIGKDD Workshop''"
    by (simp only: ev cong: ev_congs)
  have k2: "includes_str (lit ''workshop'') (map fold_case (lit ''ACM SIGKDD Workshop''))"
    by (simp only: ev cong: ev_congs)
  have k3: "normalizeVenue (lit ''ACM SIGKDD Workshop'') = Some (lit ''KDD Workshop'')"
    by (simp only: ev cong: ev_congs)
  have k4: "lit ''KDD Workshop'' \<noteq> lit ''ACM SIGKDD'' @ lit '' Workshop''"
    by (simp add: lit_append lit_eq_iff)
  show ?thesis using a b n k1 k2 k3 k4 by (simp add: c c' spec_isWorkshop_def)
qed

subsection \<open>The floor of the fallback\<close>

lemma stop_word_generic:
  assumes "map fold_case x \<in> set stop_words"
  shows "test re_generic x"
proof -
  have "exec re_generic None w \<noteq> None" if "w \<in> set stop_words" for w
    using that unfolding stop_words_def
    by (simp add: lit_def, elim disjE;
        simp only: ev_engine re_evals cong: ev_congs; simp)
  then show ?thesis using assms by (simp add: test_def)
qed

lemma fallback_floor_general:
  assumes "classify (toLowerCase (clean s)) (test re_workshop (clean s)) = None"
    and "length (simplify (clean s)) < 3 \<or> map fold_case (simplify (clean s)) \<in> set stop_words"
  shows "normalizeVenue s = None"
  using assms stop_word_generic [of "simplify (clean s)"]
  by (auto simp: normalizeVenue_def fallback_def Let_def orElse_def)

lemma floor_the: "normalizeVenue (lit ''The'') = None"
  by (simp only: ev cong: ev_congs)

lemma floor_of: "normalizeVenue (lit ''of'') = None"
  by (simp only: ev cong: ev_congs)

lemma floor_robot_learning:
  "normalizeVenue (lit ''Proceedings of the Workshop on Robot Learning, 2021'') =
     Some (lit ''Workshop'')"
  by (simp only: ev cong: ev_congs)

text \<open>
  C6. \<open>The\<close> and \<open>of\<close> are not classified. A text that no rule classifies and
  whose simplified remainder is shorter than three units or is, letter case ignored,
  one of the nine stop words is not classified. The workshop on robot learning gets
  the generic label \<open>Workshop\<close>, which is none of the labels formed from an acronym.
\<close>

theorem fallback_floor:
  "normalizeVenue (lit ''The'') = None \<and>
   normalizeVenue (lit ''of'') = None \<and>
   (classify (toLowerCase (clean s)) (test re_workshop (clean s)) = None \<and>
    (length (simplify (clean s)) < 3 \<or> map fold_case (simplify (clean s)) \<in> set stop_words)
    \<longrightarrow> normalizeVenue s = None) \<and>
   normalizeVenue (lit ''Proceedings of the Workshop on Robot Learning, 2021'') =
     Some (lit ''Workshop'') \<and>
   lit ''Workshop'' \<notin> set acronym_workshop_labels"
  using floor_the floor_of floor_robot_learning fallback_floor_general [of s]
  by (simp add: acronym_workshop_labels_def lit_eq_iff)

theorem fallback_floor_witness:
  "classify (toLowerCase (clean (lit ''With''))) (test re_workshop (clean (lit ''With''))) = None \<and>
   map fold_case (simplify (clean (lit ''With''))) \<in> set stop_words \<and>
   normalizeVenue (lit ''With'') = None"
proof -
  have c: "clean (lit ''With'') = lit ''With''"
    by (simp only: ev cong: ev_congs)
  have s: "simplify (lit ''With'') = lit ''With''"
    by (simp only: ev cong: ev_congs)
  have h1: "classify (toLowerCase (lit ''With'')) (test re_workshop (lit ''With'')) = None"
    by (simp only: ev cong: ev_congs)
  have h2: "map fold_case (lit ''With'') \<in> set stop_words"
    by (simp add: stop_words_def lit_def fold_case_def)
  show ?thesis using fallback_floor [of "lit ''With''"] h1 h2 by (simp add: c s)
qed

section \<open>The claims about extractVenueData\<close>

lemma scenario_first:
  "normalizeVenue (trim (lit ''2021 IEEE/CVF Conference on Computer Vision and Pattern Recognition, 2021''))
     = Some (lit ''CVPR'')"
  by (simp only: ev cong: ev_congs)

lemma scenario_second:
  "normalizeVenue (trim (lit ''arXiv preprint arXiv:2001.00001'')) = Some (lit ''arXiv'')"
  by (simp only: ev cong: ev_congs)

lemma scenario_third:
  "normalizeVenue (trim (lit ''2021 IEEE/CVF Conference on Computer Vision and Pattern Recognition Workshops''))
     = Some (lit ''CVPR Workshop'')"
  by (simp only: ev cong: ev_congs)

lemma constructor_label: "normalizeVenue (trim (lit ''constructor'')) = Some (lit ''constructor'')"
  by (simp only: ev cong: ev_congs)

lemma lit_not_Nil: "lit (c # cs) \<noteq> []"
  by (simp add: lit_def)

lemma array_index_letter: "\<not> isDigit (of_char c) \<Longrightarrow> array_index (lit (c # cs)) = None"
  by (simp add: array_index_def lit_def)

lemmas extract_ev = extractVenueData_def extract_step_def venueElement_def increment_def
  object_prototype_keys_def object_entries_def js_sort_def consistent_comparator_def
  is_number_def compareFn_def

text \<open>
  C2, as amended. The three rows of the scenario yield \<open>CVPR\<close>, \<open>arXiv\<close> and
  \<open>CVPR Workshop\<close>, each counted once, in this order, the order in which they were
  first met; three rows are processed and none is skipped.
\<close>

theorem scenario_extraction:
  "extractVenueData scenario_rows =
     \<lparr>venueArray = [(lit ''CVPR'', Num 1), (lit ''arXiv'', Num 1), (lit ''CVPR Workshop'', Num 1)],
      processedCount = 3, skippedCount = 0\<rparr>"
  unfolding scenario_rows_def
  by (simp add: extract_ev scenario_first scenario_second scenario_third lit_eq_iff
      array_index_letter isDigit_def lit_not_Nil)

text \<open>
  C2, as stated, names a list in which \<open>CVPR Workshop\<close>, met third, stands before
  \<open>arXiv\<close>, met second; the extraction does not return that list.
\<close>

theorem scenario_order_counterexample:
  "venueArray (extractVenueData scenario_rows) \<noteq>
     [(lit ''CVPR'', Num 1), (lit ''CVPR Workshop'', Num 1), (lit ''arXiv'', Num 1)]"
  unfolding scenario_rows_def
  by (simp add: extract_ev scenario_first scenario_second scenario_third lit_eq_iff
      array_index_letter isDigit_def lit_not_Nil)

subsection \<open>The accounting\<close>

text \<open>Every row is counted once, as processed or as skipped.\<close>

lemma extract_step_counts:
  "extract_step (v, p, s) x = (v', p', s') \<Longrightarrow> p' + s' = p + s + 1"
  by (auto simp: extract_step_def split: option.splits if_splits)

lemma foldl_extract_counts:
  "foldl extract_step (v, p, s) xs = (v', p', s') \<Longrightarrow> p' + s' = p + s + length xs"
proof (induction xs arbitrary: v p s)
  case Nil
  then show ?case by simp
next
  case (Cons x xs)
  obtain v1 p1 s1 where st: "extract_step (v, p, s) x = (v1, p1, s1)"
    by (cases "extract_step (v, p, s) x")
  have "p' + s' = p1 + s1 + length xs" using Cons.IH [of v1 p1 s1] Cons.prems st by simp
  then show ?case using extract_step_counts [OF st] by simp
qed

lemma every_record_counted:
  "processedCount (extractVenueData publications) + skippedCount (extractVenueData publications) =
     length publications"
proof -
  obtain v p s where st: "foldl extract_step ([], 0, 0) publications = (v, p, s)"
    by (cases "foldl extract_step ([], 0, 0) publications")
  show ?thesis using foldl_extract_counts [OF st] by (simp add: extractVenueData_def st)
qed

text \<open>
  When no label is the name of a property of \<open>Object.prototype\<close>, all the counts are
  numbers and their sum is the number of processed rows.
\<close>

lemma total_numeric_aux:
  "list_all is_number t \<Longrightarrow>
   foldl (\<lambda>acc item. add_count acc (snd item)) (Num a) t = Num (a + numeric_total t)"
proof (induction t arbitrary: a)
  case Nil
  then show ?case by (simp add: numeric_total_def)
next
  case (Cons e t)
  obtain k c where e: "e = (k, c)" by (cases e)
  from Cons.prems obtain n where c: "c = Num n"
    by (cases c) (simp_all add: e is_number_def)
  have "list_all is_number t" using Cons.prems by simp
  from Cons.IH [OF this, of "a + n"] show ?case
    by (simp add: e c add_count_def numeric_total_def)
qed

lemma total_numeric:
  "list_all is_number t \<Longrightarrow> totalPubsFromVenues t = Num (numeric_total t)"
  using total_numeric_aux [of t 0] by (simp add: totalPubsFromVenues_def)

lemma assign_numeric:
  "list_all is_number t \<Longrightarrow> list_all is_number (assign k (Num m) t)"
  by (induction t) (auto simp: is_number_def)

lemma assign_new:
  "map_of t k = None \<Longrightarrow> numeric_total (assign k (Num m) t) = numeric_total t + m"
  by (induction t) (auto simp: numeric_total_def)

lemma assign_old:
  "map_of t k = Some (Num n) \<Longrightarrow>
   numeric_total (assign k (Num (Suc n)) t) = Suc (numeric_total t)"
  by (induction t) (auto simp: numeric_total_def)

lemma increment_numeric:
  assumes "list_all is_number t" and "k \<notin> set object_prototype_keys"
  shows "list_all is_number (increment t k) \<and> numeric_total (increment t k) = numeric_total t + 1"
proof (cases "map_of t k")
  case None
  then show ?thesis
    using assms by (simp add: increment_def assign_numeric assign_new)
next
  case (Some c)
  have "(k, c) \<in> set t" using Some by (rule map_of_SomeD)
  then have "is_number (k, c)" using assms(1) by (simp add: list_all_iff)
  then obtain n where "c = Num n" by (cases c) (simp_all add: is_number_def)
  then show ?thesis
    using assms Some by (simp add: increment_def assign_numeric assign_old)
qed

lemma foldl_extract_numeric:
  assumes "\<forall>x\<in>set xs. \<forall>t v. venueElement x = Some t \<and> normalizeVenue (trim t) = Some v \<longrightarrow>
      v \<notin> set object_prototype_keys"
    and "list_all is_number v" and "numeric_total v = p"
    and "foldl extract_step (v, p, s) xs = (v', p', s')"
  shows "list_all is_number v' \<and> numeric_total v' = p'"
  using assms
proof (induction xs arbitrary: v p s)
  case Nil
  then show ?case by simp
next
  case (Cons x xs)
  obtain v1 p1 s1 where st: "extract_step (v, p, s) x = (v1, p1, s1)"
    by (cases "extract_step (v, p, s) x")
  have inv: "list_all is_number v1 \<and> numeric_total v1 = p1"
  proof (cases "venueElement x")
    case None
    then show ?thesis using st Cons.prems(2,3) by (simp add: extract_step_def)
  next
    case (Some t)
    show ?thesis
    proof (cases "normalizeVenue (trim t)")
      case None
      then show ?thesis using st Some Cons.prems(2,3) by (simp add: extract_step_def)
    next
      case (Some l)
      have "l \<notin> set object_prototype_keys"
        using Cons.prems(1) \<open>venueElement x = Some t\<close> Some by simp
      from increment_numeric [OF Cons.prems(2) this] show ?thesis
        using st \<open>venueElement x = Some t\<close> Some Cons.prems(2,3)
        by (auto simp: extract_step_def split: if_splits)
    qed
  qed
  show ?case
    using Cons.IH [of v1 p1 s1] Cons.prems(1,4) st inv by auto
qed

lemma insort_numeric_total:
  "numeric_total (insort_key f e t) = numeric_total [e] + numeric_total t"
  by (induction t) (simp_all add: numeric_total_def)

lemma sort_numeric_total: "numeric_total (sort_key f t) = numeric_total t"
  by (induction t) (simp_all add: insort_numeric_total, simp_all add: numeric_total_def)

lemma filter_numeric_total:
  "numeric_total (filter P t) + numeric_total (filter (\<lambda>e. \<not> P e) t) = numeric_total t"
  by (induction t) (simp_all add: numeric_total_def)

lemma numeric_total_append: "numeric_total (a @ b) = numeric_total a + numeric_total b"
  by (simp add: numeric_total_def)

lemma object_entries_numeric:
  assumes "list_all is_number t"
  shows "list_all is_number (object_entries t) \<and>
     numeric_total (object_entries t) = numeric_total t"
proof -
  have "list_all is_number (object_entries t)"
    using assms by (auto simp: object_entries_def list_all_iff)
  moreover have "numeric_total (object_entries t) = numeric_total t"
    using filter_numeric_total [of "\<lambda>e. array_index (fst e) \<noteq> None" t]
    by (simp add: object_entries_def numeric_total_append sort_numeric_total)
  ultimately show ?thesis by simp
qed

lemma insert_sorted_numeric:
  "set (insert_sorted e t) = insert e (set t) \<and>
   numeric_total (insert_sorted e t) = numeric_total [e] + numeric_total t"
  by (induction t) (auto simp: numeric_total_def)

lemma foldl_insert_sorted:
  "set (foldl (\<lambda>acc x. insert_sorted x acc) a t) = set a \<union> set t \<and>
   numeric_total (foldl (\<lambda>acc x. insert_sorted x acc) a t) = numeric_total a + numeric_total t"
proof (induction t arbitrary: a)
  case Nil
  then show ?case by (simp add: numeric_total_def)
next
  case (Cons e t)
  show ?case
    using Cons.IH [of "insert_sorted e a"] insert_sorted_numeric [of e a]
    by (auto simp: numeric_total_def)
qed

lemma js_sort_numeric:
  assumes "list_all is_number t"
  shows "list_all is_number (js_sort t) \<and> numeric_total (js_sort t) = numeric_total t"
  using assms foldl_insert_sorted [of "[]" t]
  by (simp add: js_sort_def consistent_comparator_def list_all_iff numeric_total_def)

lemma counts_sum_to_processed:
  assumes "\<forall>x\<in>set publications. \<forall>t v.
      venueElement x = Some t \<and> normalizeVenue (trim t) = Some v \<longrightarrow>
      v \<notin> set object_prototype_keys"
  shows "totalPubsFromVenues (venueArray (extractVenueData publications)) =
     Num (processedCount (extractVenueData publications))"
proof -
  obtain v p s where st: "foldl extract_step ([], 0, 0) publications = (v, p, s)"
    by (cases "foldl extract_step ([], 0, 0) publications")
  have "list_all is_number v \<and> numeric_total v = p"
    using foldl_extract_numeric [OF assms _ _ st] by (simp add: numeric_total_def)
  then have "list_all is_number (js_sort (object_entries v)) \<and>
      numeric_total (js_sort (object_entries v)) = p"
    using object_entries_numeric [of v] js_sort_numeric [of "object_entries v"] by simp
  then show ?thesis
    using total_numeric [of "js_sort (object_entries v)"] by (simp add: extractVenueData_def st)
qed

text \<open>
  C3. A row whose venue reads \<open>constructor\<close> is processed, and its count is not a
  number: the tally is an object with a prototype, the read of \<open>venues[k]\<close> finds
  the inherited \<open>constructor\<close>, and \<open>+ 1\<close> makes a string of it. The sum of the
  counts is then not the number of processed rows.
\<close>

theorem constructor_extraction:
  "extractVenueData constructor_rows =
     \<lparr>venueArray = [(lit ''constructor'', NaS)], processedCount = 1, skippedCount = 0\<rparr> \<and>
   totalPubsFromVenues (venueArray (extractVenueData constructor_rows)) \<noteq> Num 1"
  unfolding constructor_rows_def
  by (simp add: extract_ev constructor_label lit_eq_iff array_index_letter isDigit_def lit_not_Nil
      totalPubsFromVenues_def add_count_def)

section \<open>The claims about the loading and the listener\<close>

subsection \<open>The search for the button on the sample pages\<close>

lemmas page_ev =
  findShowMoreButtonSync_def find_button_def first_valid.simps isValidShowMoreButtonFast_def
  isNotPaperLink_def specificSelectors_def allButtons_def onclickElements_def has_tag_def
  has_button_text_def List.map_filter_simps find.simps filter.simps element.simps dom.simps
  sum.case href_value.case bool.case list.set empty_iff insert_iff

lemma show_more_button_found: "find_button [show_more_button] = Inr (Some show_more_button)"
  unfolding show_more_button_def
  by (simp only: page_ev ev_engine lit_ev cong: ev_congs sum.case_cong_weak)

lemma svg_link_raises:
  "find_button [svg_link] = Inl (JsError (lit ''element.href?.includes is not a function''))"
  unfolding svg_link_def
  by (simp only: page_ev ev_engine lit_ev cong: ev_congs sum.case_cong_weak)

lemma svg_text_found: "find_button [svg_text] = Inr (Some svg_text)"
  unfolding svg_text_def
  by (simp only: page_ev ev_engine lit_ev cong: ev_congs sum.case_cong_weak)

lemma no_button: "find_button [] = Inr None"
  by (simp only: page_ev ev_engine lit_ev cong: ev_congs sum.case_cong_weak)

subsection \<open>The loop\<close>

text \<open>
  The wait returns the number of rows of the page it ends in. The loop never makes
  more than \<open>maxAttempts\<close> attempts; it returns whenever the search for the button
  does not raise; an error of the click ends it; and where the button is always
  found and can be clicked, and neither a click nor the passing of time changes the
  number of rows, it ends after the first wait, without a counted attempt.
\<close>

lemma check_count:
  "fst (checkForNewPublications d previousCount timeout failures elapsed p) =
     length (rows d (snd (checkForNewPublications d previousCount timeout failures elapsed p)))"
proof (induction d previousCount timeout failures elapsed p rule: checkForNewPublications.induct)
  case (1 d previousCount timeout consecutiveFailures elapsed p)
  show ?case
    apply (subst (1 2) checkForNewPublications.simps)
    using 1 by (simp add: Let_def)
qed

lemma wait_count:
  "waitForNewPublicationsOptimized d previousCount timeout p = (n, q) \<Longrightarrow> n = length (rows d q)"
  unfolding waitForNewPublicationsOptimized_def using check_count
  by (metis fst_conv snd_conv)

lemma pagination_bound:
  "attempts \<le> maxAttempts \<Longrightarrow> pagination d attempts publicationsBefore p = Inr (a, q) \<Longrightarrow>
     attempts \<le> a \<and> a \<le> maxAttempts"
proof (induction d attempts publicationsBefore p rule: pagination.induct)
  case (1 d attempts publicationsBefore p)
  show ?case
  proof (cases "attempts < maxAttempts")
    case False
    then have "pagination d attempts publicationsBefore p = Inr (attempts, p)"
      by (subst pagination.simps) simp
    then show ?thesis using "1.prems" by simp
  next
    case True
    have eq: "pagination d attempts publicationsBefore p =
        (case findShowMoreButtonSync d p of
           Inl e \<Rightarrow> Inl e
         | Inr None \<Rightarrow> Inr (attempts, p)
         | Inr (Some showMoreButton) \<Rightarrow>
             (case click d showMoreButton p of
                (p1, Some e) \<Rightarrow> Inr (attempts, p1)
              | (p1, None) \<Rightarrow>
                  (case waitForNewPublicationsOptimized d publicationsBefore 10000 p1 of
                     (newCount, p2) \<Rightarrow>
                       if newCount = publicationsBefore then Inr (attempts, p2)
                       else pagination d (attempts + 1) newCount
                              (fst (setTimeout d 300 p2)))))"
      by (subst pagination.simps) (simp add: True)
    show ?thesis
      using "1.prems"(2) "1.IH" True unfolding eq
      apply (auto split: sum.splits option.splits prod.splits if_splits)
      apply (metis Suc_leD)
      done
  qed
qed


lemma pagination_unfold:
  "attempts < maxAttempts \<Longrightarrow>
   pagination d attempts publicationsBefore p =
     (case findShowMoreButtonSync d p of
        Inl e \<Rightarrow> Inl e
      | Inr None \<Rightarrow> Inr (attempts, p)
      | Inr (Some showMoreButton) \<Rightarrow>
          (case click d showMoreButton p of
             (p1, Some e) \<Rightarrow> Inr (attempts, p1)
           | (p1, None) \<Rightarrow>
               (case waitForNewPublicationsOptimized d publicationsBefore 10000 p1 of
                  (newCount, p2) \<Rightarrow>
                    if newCount = publicationsBefore then Inr (attempts, p2)
                    else pagination d (attempts + 1) newCount (fst (setTimeout d 300 p2)))))"
  by (subst pagination.simps) simp

lemma pagination_stop: "\<not> attempts < maxAttempts \<Longrightarrow>
    pagination d attempts publicationsBefore p = Inr (attempts, p)"
  by (subst pagination.simps) simp

lemma pagination_returns:
  "\<forall>q. \<exists>b. findShowMoreButtonSync d q = Inr b \<Longrightarrow>
   \<exists>a q. pagination d attempts publicationsBefore p = Inr (a, q)"
proof (induction d attempts publicationsBefore p rule: pagination.induct)
  case (1 d attempts publicationsBefore p)
  note f = "1.prems"
  show ?case
  proof (cases "attempts < maxAttempts")
    case False
    then show ?thesis by (simp add: pagination_stop)
  next
    case True
    obtain b where b: "findShowMoreButtonSync d p = Inr b" using f by blast
    show ?thesis
    proof (cases b)
      case None
      then show ?thesis using b True by (simp add: pagination_unfold)
    next
      case (Some button)
      obtain p1 e where c: "click d button p = (p1, e)" by (cases "click d button p")
      show ?thesis
      proof (cases e)
        case (Some err)
        then show ?thesis using b \<open>b = Some button\<close> c True by (simp add: pagination_unfold)
      next
        case None
        obtain n p2 where w: "waitForNewPublicationsOptimized d publicationsBefore 10000 p1 = (n, p2)"
          by (cases "waitForNewPublicationsOptimized d publicationsBefore 10000 p1")
        show ?thesis
        proof (cases "n = publicationsBefore")
          case True
          then show ?thesis
            using b \<open>b = Some button\<close> c None w \<open>attempts < maxAttempts\<close>
            by (simp add: pagination_unfold)
        next
          case False
          have "\<exists>a q. pagination d (attempts + 1) n (fst (setTimeout d 300 p2)) = Inr (a, q)"
            using "1.IH" [OF True b \<open>b = Some button\<close> _ _ _ False f, of p1 e p2]
              c None w by simp
          then show ?thesis
            using b \<open>b = Some button\<close> c None w False \<open>attempts < maxAttempts\<close>
            by (simp add: pagination_unfold)
        qed
      qed
    qed
  qed
qed

lemma click_error_caught:
  assumes "attempts < maxAttempts" and "findShowMoreButtonSync d p = Inr (Some b)"
    and "click d b p = (p1, Some e)"
  shows "pagination d attempts publicationsBefore p = Inr (attempts, p1)"
  using assms by (simp add: pagination_unfold)

lemma check_inert:
  "\<forall>delay q. length (rows d (fst (setTimeout d delay q))) = length (rows d q) \<Longrightarrow>
   length (rows d (snd (checkForNewPublications d previousCount timeout failures elapsed p)))
     = length (rows d p)"
proof (induction d previousCount timeout failures elapsed p rule: checkForNewPublications.induct)
  case (1 d previousCount timeout consecutiveFailures elapsed p)
  show ?case
    apply (subst checkForNewPublications.simps)
    using 1 by (simp add: Let_def)
qed

lemma pagination_inert:
  assumes "attempts < maxAttempts"
    and "\<forall>q. \<exists>b. findShowMoreButtonSync d q = Inr (Some b) \<and> has_click b"
    and "\<forall>b q. length (rows d (dispatch_click d b q)) = length (rows d q)"
    and "\<forall>delay q. length (rows d (fst (setTimeout d delay q))) = length (rows d q)"
  shows "\<exists>q. pagination d attempts (length (rows d p)) p = Inr (attempts, q) \<and>
     length (rows d q) = length (rows d p)"
proof -
  obtain b where b: "findShowMoreButtonSync d p = Inr (Some b)" "has_click b"
    using assms(2) by blast
  have c: "click d b p = (dispatch_click d b p, None)" using b(2) by (simp add: click_def)
  obtain m p2 where
    w: "waitForNewPublicationsOptimized d (length (rows d p)) 10000 (dispatch_click d b p) = (m, p2)"
    by (cases "waitForNewPublicationsOptimized d (length (rows d p)) 10000 (dispatch_click d b p)")
  have "length (rows d p2) = length (rows d (dispatch_click d b p))"
    using check_inert [OF assms(4), of "length (rows d p)" 10000 0 0 "dispatch_click d b p"] w
    by (simp add: waitForNewPublicationsOptimized_def)
  then have p2: "length (rows d p2) = length (rows d p)" using assms(3) by simp
  then have "m = length (rows d p)" using wait_count [OF w] by simp
  then show ?thesis using assms(1) b(1) c w p2 by (simp add: pagination_unfold)
qed

lemma loading_terminates:
  "((\<forall>q. \<exists>b. findShowMoreButtonSync d q = Inr b) \<longrightarrow>
      (\<exists>l q. loadAllPublications d p = Inr l \<and> attemptsUsed l \<le> maxAttempts \<and>
         finalCount l = length (rows d q) \<and> pageAfter l = fst (setTimeout d 500 q))) \<and>
   ((\<forall>q. \<exists>b. findShowMoreButtonSync d q = Inr (Some b) \<and> has_click b) \<and>
    (\<forall>b q. length (rows d (dispatch_click d b q)) = length (rows d q)) \<and>
    (\<forall>delay q. length (rows d (fst (setTimeout d delay q))) = length (rows d q)) \<longrightarrow>
      (\<exists>l. loadAllPublications d p = Inr l \<and> attemptsUsed l = 0 \<and>
         finalCount l = length (rows d p)))"
proof (intro conjI impI)
  assume f: "\<forall>q. \<exists>b. findShowMoreButtonSync d q = Inr b"
  obtain a q where r: "pagination d 0 (length (rows d p)) p = Inr (a, q)"
    using pagination_returns [OF f] by blast
  have "a \<le> maxAttempts" using pagination_bound [OF _ r] by simp
  then show "\<exists>l q. loadAllPublications d p = Inr l \<and> attemptsUsed l \<le> maxAttempts \<and>
         finalCount l = length (rows d q) \<and> pageAfter l = fst (setTimeout d 500 q)"
    using r by (auto simp: loadAllPublications_def)
next
  assume h: "(\<forall>q. \<exists>b. findShowMoreButtonSync d q = Inr (Some b) \<and> has_click b) \<and>
    (\<forall>b q. length (rows d (dispatch_click d b q)) = length (rows d q)) \<and>
    (\<forall>delay q. length (rows d (fst (setTimeout d delay q))) = length (rows d q))"
  have "0 < maxAttempts" by (simp add: maxAttempts_def)
  then obtain q where "pagination d 0 (length (rows d p)) p = Inr (0, q)"
    "length (rows d q) = length (rows d p)"
    using pagination_inert [of 0 d p] h by blast
  then show "\<exists>l. loadAllPublications d p = Inr l \<and> attemptsUsed l = 0 \<and>
         finalCount l = length (rows d p)"
    by (simp add: loadAllPublications_def)
qed

lemma inert_page_button:
  "findShowMoreButtonSync inert_page q = Inr (Some show_more_button) \<and>
   click inert_page show_more_button q = (q, None)"
  by (simp add: findShowMoreButtonSync_def click_def inert_page_def show_more_button_found)
     (simp add: show_more_button_def)

lemma inert_page_loading:
  "\<exists>l. loadAllPublications inert_page 3 = Inr l \<and> attemptsUsed l = 0 \<and> finalCount l = 3"
proof -
  have "\<forall>q. \<exists>b. findShowMoreButtonSync inert_page q = Inr (Some b) \<and> has_click b"
    using inert_page_button by (simp add: show_more_button_def)
  moreover have
    "\<forall>b q. length (rows inert_page (dispatch_click inert_page b q)) = length (rows inert_page q)"
    "\<forall>delay q. length (rows inert_page (fst (setTimeout inert_page delay q))) =
       length (rows inert_page q)"
    "length (rows inert_page 3) = 3"
    by (simp_all add: inert_page_def)
  ultimately show ?thesis
    using loading_terminates [of inert_page 3] by simp
qed

text \<open>A page that grows with every click is loaded up to the ceiling of the attempts.\<close>

lemma growing_page_button:
  "findShowMoreButtonSync growing_page q = Inr (Some show_more_button) \<and>
   click growing_page show_more_button q = (q + 20, None)"
  by (simp add: findShowMoreButtonSync_def click_def growing_page_def inert_page_def
      show_more_button_found)
     (simp add: show_more_button_def)

lemma growing_page_wait:
  "waitForNewPublicationsOptimized growing_page n 10000 (n + 20) = (n + 20, n + 20)"
  unfolding waitForNewPublicationsOptimized_def
  by (subst checkForNewPublications.simps) (simp add: growing_page_def inert_page_def Let_def)

lemma growing_page_pagination:
  "k + attempts = maxAttempts \<Longrightarrow>
   pagination growing_page attempts n n = Inr (maxAttempts, n + 20 * k)"
proof (induction k arbitrary: attempts n)
  case 0
  then show ?case by (simp add: pagination_stop)
next
  case (Suc k)
  have lt: "attempts < maxAttempts" using Suc.prems by simp
  have st: "fst (setTimeout growing_page 300 (n + 20)) = n + 20"
    by (simp add: growing_page_def inert_page_def)
  have "pagination growing_page attempts n n =
      pagination growing_page (attempts + 1) (n + 20) (n + 20)"
    using lt by (simp add: pagination_unfold growing_page_button growing_page_wait st)
  then show ?case using Suc.IH [of "attempts + 1" "n + 20"] Suc.prems by simp
qed

lemma growing_page_loading:
  "loadAllPublications growing_page 1 =
     Inr \<lparr>finalCount = 4001, attemptsUsed = 200, pageAfter = 4001\<rparr>"
  using growing_page_pagination [of 200 0 1]
  by (simp add: loadAllPublications_def maxAttempts_def growing_page_def inert_page_def)

text \<open>A page without a button is not loaded any further.\<close>

lemma plain_page_loading:
  "loadAllPublications plain_page 3 =
     Inr \<lparr>finalCount = 3, attemptsUsed = 0, pageAfter = 3\<rparr>"
  by (simp add: loadAllPublications_def pagination_unfold maxAttempts_def
      findShowMoreButtonSync_def plain_page_def inert_page_def no_button)

lemma svg_link_page_discovery:
  "findShowMoreButtonSync svg_link_page q =
     Inl (JsError (lit ''element.href?.includes is not a function''))"
  by (simp add: findShowMoreButtonSync_def svg_link_page_def inert_page_def svg_link_raises)

text \<open>
  C7. On a page where the only candidate for the button is a link of an inline SVG
  image, the search raises a \<open>TypeError\<close>; the search is called before the
  \<open>try\<close> block is entered, so the loading does not return a number of rows. On
  every page on which the search does not raise, the loading returns within
  \<open>maxAttempts\<close> attempts, by \<open>loading_terminates\<close>.
\<close>

theorem loading_fails_on_svg_link:
  "findShowMoreButtonSync svg_link_page 3 =
     Inl (JsError (lit ''element.href?.includes is not a function'')) \<and>
   loadAllPublications svg_link_page 3 =
     Inl (JsError (lit ''element.href?.includes is not a function''))"
  by (simp add: loadAllPublications_def svg_link_page_discovery pagination_unfold maxAttempts_def)

subsection \<open>The run\<close>

lemma profile_url_valid: "isValidScholarProfilePage profile_url"
  unfolding isValidScholarProfilePage_def profile_url_def
  by (simp only: ev cong: ev_congs)

lemma cvpr_row_label: "normalizeVenue (trim (lit ''Proceedings of CVPR, 2020'')) = Some (lit ''CVPR'')"
  by (simp only: ev cong: ev_congs)

lemma two_cvpr_rows:
  "extractVenueData [cvpr_row, cvpr_row] =
     \<lparr>venueArray = [(lit ''CVPR'', Num 2)], processedCount = 2, skippedCount = 0\<rparr>"
  unfolding cvpr_row_def
  by (simp add: extract_ev cvpr_row_label lit_eq_iff array_index_letter isDigit_def lit_not_Nil)

lemma svg_text_page_button:
  "findShowMoreButtonSync svg_text_page q = Inr (Some svg_text) \<and>
   click svg_text_page svg_text q =
     (q, Some (JsError (lit ''showMoreButton.click is not a function'')))"
  by (simp add: findShowMoreButtonSync_def click_def svg_text_page_def inert_page_def
      svg_text_found)
     (simp add: svg_text_def)

lemma svg_text_page_loading:
  "loadAllPublications svg_text_page 2 =
     Inr \<lparr>finalCount = 2, attemptsUsed = 0, pageAfter = 2\<rparr>"
  by (simp add: loadAllPublications_def pagination_unfold maxAttempts_def svg_text_page_button)
     (simp add: svg_text_page_def inert_page_def)

lemma click_error_does_not_fail_run:
  "analyzeAllVenues svg_text_page 2 =
     Inr \<lparr>venues = [(lit ''CVPR'', Num 2)], totalFound = 2, totalProcessed = 2,
          totalSkipped = 0, success = True\<rparr>"
proof -
  have r: "rows svg_text_page 2 = [cvpr_row, cvpr_row]"
    by (simp add: svg_text_page_def inert_page_def numeral_2_eq_2)
  have u: "location_href svg_text_page 2 = profile_url"
    by (simp add: svg_text_page_def inert_page_def)
  show ?thesis
    by (simp add: analyzeAllVenues_def u profile_url_valid r svg_text_page_loading two_cvpr_rows)
qed

lemma analysis_after_loading:
  assumes "\<forall>q. \<exists>b. findShowMoreButtonSync d q = Inr b"
    and "isValidScholarProfilePage (location_href d p)" and "rows d p \<noteq> []"
  shows "\<exists>l. loadAllPublications d p = Inr l \<and>
         analyzeAllVenues d p =
           (if venueArray (extractVenueData (rows d (pageAfter l))) = []
            then Inl (JsError msg_no_venues)
            else Inr \<lparr>venues = venueArray (extractVenueData (rows d (pageAfter l))),
                      totalFound = length (rows d (pageAfter l)),
                      totalProcessed = processedCount (extractVenueData (rows d (pageAfter l))),
                      totalSkipped = skippedCount (extractVenueData (rows d (pageAfter l))),
                      success = True\<rparr>)"
proof -
  obtain a q where "pagination d 0 (length (rows d p)) p = Inr (a, q)"
    using pagination_returns [OF assms(1)] by blast
  then obtain l where l: "loadAllPublications d p = Inr l"
    by (simp add: loadAllPublications_def)
  then show ?thesis using assms(2,3) by (simp add: analyzeAllVenues_def Let_def)
qed

lemma analysis_accounting:
  assumes "analyzeAllVenues d p = Inr a"
  shows "totalProcessed a + totalSkipped a = totalFound a"
  using assms every_record_counted
  by (auto simp: analyzeAllVenues_def Let_def split: if_splits sum.splits)

text \<open>
  C9. An error of the click is caught: the run goes on and analyzes the rows that
  are there (\<open>click_error_does_not_fail_run\<close>). An error of the search for the
  button is not: on the page with the link of the SVG image the run fails with the
  \<open>TypeError\<close>, although the page is a profile page with rows.
\<close>

theorem analysis_fails_on_svg_link:
  "isValidScholarProfilePage (location_href svg_link_page 2) \<and>
   rows svg_link_page 2 \<noteq> [] \<and>
   analyzeAllVenues svg_link_page 2 =
     Inl (JsError (lit ''element.href?.includes is not a function''))"
proof -
  have u: "location_href svg_link_page 2 = profile_url"
    by (simp add: svg_link_page_def inert_page_def)
  have r: "rows svg_link_page 2 \<noteq> []"
    by (simp add: svg_link_page_def inert_page_def)
  have l: "loadAllPublications svg_link_page 2 =
      Inl (JsError (lit ''element.href?.includes is not a function''))"
    by (simp add: loadAllPublications_def svg_link_page_discovery pagination_unfold
        maxAttempts_def)
  show ?thesis using r by (simp add: analyzeAllVenues_def u profile_url_valid l)
qed

theorem analysis_fails_on_svg_link_witness:
  "location_href svg_link_page 2 = profile_url \<and>
   includes_str (lit ''scholar.google.'') profile_url \<and>
   includes_str (lit ''/citations?'') profile_url \<and>
   includes_str (lit ''user='') profile_url \<and>
   \<not> includes_str (lit ''view_op='') profile_url \<and>
   length (rows svg_link_page 2) = 2 \<and>
   analyzeAllVenues svg_link_page 2 =
     Inl (JsError (lit ''element.href?.includes is not a function''))"
proof -
  have u: "location_href svg_link_page 2 = profile_url"
    by (simp add: svg_link_page_def inert_page_def)
  have h: "includes_str (lit ''scholar.google.'') profile_url \<and>
      includes_str (lit ''/citations?'') profile_url \<and>
      includes_str (lit ''user='') profile_url \<and>
      \<not> includes_str (lit ''view_op='') profile_url"
    unfolding profile_url_def by (simp only: ev cong: ev_congs)
  have r: "length (rows svg_link_page 2) = 2"
    by (simp add: svg_link_page_def inert_page_def)
  show ?thesis using analysis_fails_on_svg_link u h r by simp
qed

subsection \<open>The listener\<close>



end
